theory Spec2Isabelle
  imports Main "HOL-Library.Signed_Division" "HOL-Library.Multiset"
begin


section \<open>Shared types of the library\<close>

text \<open>
  The status codes every public operation returns, the enumerations of the descriptor and
  of the matrix handle. \<open>aoclsparse_int\<close> is a signed machine integer, of 32 bits
  unless the library is built for 64-bit indices. Sizes and indices are modelled by \<open>int\<close>;
  the offsets into arrays that exist stay in range. The product \<open>10 * m\<close> of the
  double-precision dispatcher is taken of a size that has passed every check and can leave
  the range: its overflow is undefined in C++, the compiled code keeps the low 32 bits, and
  so does \<open>aoclsparse_int_wrap\<close>. \<open>aoclsparse_index_base\<close> is a C enumeration that the
  code both compares and subtracts from indices; it is the integer it denotes.
\<close>

definition aoclsparse_int_wrap :: "int \<Rightarrow> int" where
  "aoclsparse_int_wrap k = (k + 2 ^ 31) mod 2 ^ 32 - 2 ^ 31"

datatype aoclsparse_status =
    aoclsparse_status_success
  | aoclsparse_status_not_implemented
  | aoclsparse_status_invalid_pointer
  | aoclsparse_status_invalid_size
  | aoclsparse_status_internal_error
  | aoclsparse_status_invalid_value
  | aoclsparse_status_wrong_type
  | aoclsparse_status_memory_error

type_synonym aoclsparse_index_base = int

definition aoclsparse_index_base_zero :: aoclsparse_index_base where
  "aoclsparse_index_base_zero = 0"


datatype aoclsparse_operation =
    aoclsparse_operation_none
  | aoclsparse_operation_transpose
  | aoclsparse_operation_conjugate_transpose

datatype aoclsparse_matrix_type =
    aoclsparse_matrix_type_general
  | aoclsparse_matrix_type_symmetric
  | aoclsparse_matrix_type_hermitian
  | aoclsparse_matrix_type_triangular

datatype aoclsparse_matrix_data_type =
    aoclsparse_dmat
  | aoclsparse_smat
  | aoclsparse_cmat
  | aoclsparse_zmat

text \<open>The descriptor, as far as the dispatcher reads it.\<close>

record aoclsparse_mat_descr =
  descr_type :: aoclsparse_matrix_type
  descr_base :: aoclsparse_index_base

section \<open>The SpMV dispatcher (aoclsparse\_csrmv.cpp)\<close>

text \<open>
  A pointer argument is an option: \<open>None\<close> is \<open>nullptr\<close>, \<open>Some xs\<close> the array it
  points to. The output vector \<open>y\<close> may be uninitialised on entry, so its cells are
  options as well (\<open>None\<close>: never written). Both C wrappers end in a tail call
  \<open>return kernel(*alpha, m, n, nnz, csr_val, csr_col_ind, csr_row_ptr, x, *beta, y, ...)\<close>;
  the routing functions below return either the status of an early \<open>return\<close> or the
  kernel of that tail call (named by \<open>csrmv_kernel\<close>) together with the arrays handed
  to it.
\<close>

datatype csrmv_kernel =
    csrmv_symm
  | csrmv_general
  | csrmv_vectorized
  | csrmv_vectorized_avx2
  | csrmv_vectorized_avx512

datatype 'a csrmv_route =
    Return aoclsparse_status
  | Invoke csrmv_kernel "'a list" "int list" "int list" "'a list" "'a option list"

definition aoclsparse_scsrmv_route ::
  "aoclsparse_operation \<Rightarrow> int \<Rightarrow> int \<Rightarrow> int \<Rightarrow> 'a list option \<Rightarrow> int list option \<Rightarrow>
   int list option \<Rightarrow> aoclsparse_mat_descr option \<Rightarrow> 'a list option \<Rightarrow>
   'a option list option \<Rightarrow> 'a csrmv_route" where
  "aoclsparse_scsrmv_route trans_op m n nnz csr_val csr_col_ind csr_row_ptr descr x y =
    (case descr of
       None \<Rightarrow> Return aoclsparse_status_invalid_pointer
     | Some d \<Rightarrow>
        if descr_base d \<noteq> aoclsparse_index_base_zero then
          Return aoclsparse_status_not_implemented
        else if descr_type d \<noteq> aoclsparse_matrix_type_general
                \<and> descr_type d \<noteq> aoclsparse_matrix_type_symmetric then
          Return aoclsparse_status_not_implemented
        else if trans_op \<noteq> aoclsparse_operation_none then
          Return aoclsparse_status_not_implemented
        else if m < 0 then Return aoclsparse_status_invalid_size
        else if n < 0 then Return aoclsparse_status_invalid_size
        else if nnz < 0 then Return aoclsparse_status_invalid_size
        else if m = 0 \<or> n = 0 \<or> nnz = 0 then Return aoclsparse_status_success
        else
          (case csr_val of
             None \<Rightarrow> Return aoclsparse_status_invalid_pointer
           | Some v \<Rightarrow>
          (case csr_row_ptr of
             None \<Rightarrow> Return aoclsparse_status_invalid_pointer
           | Some r \<Rightarrow>
          (case csr_col_ind of
             None \<Rightarrow> Return aoclsparse_status_invalid_pointer
           | Some c \<Rightarrow>
          (case x of
             None \<Rightarrow> Return aoclsparse_status_invalid_pointer
           | Some xv \<Rightarrow>
          (case y of
             None \<Rightarrow> Return aoclsparse_status_invalid_pointer
           | Some yv \<Rightarrow>
              if descr_type d = aoclsparse_matrix_type_symmetric then
                Invoke csrmv_symm v c r xv yv
              else
                Invoke csrmv_vectorized v c r xv yv))))))"

text \<open>
  The double-precision wrapper additionally reads the capability snapshot
  (\<open>context.is_avx512\<close>) and is compiled with or without \<open>USE_AVX512\<close>; both are
  parameters.
\<close>

definition aoclsparse_dcsrmv_route ::
  "bool \<Rightarrow> bool \<Rightarrow> aoclsparse_operation \<Rightarrow> int \<Rightarrow> int \<Rightarrow> int \<Rightarrow> 'a list option \<Rightarrow>
   int list option \<Rightarrow> int list option \<Rightarrow> aoclsparse_mat_descr option \<Rightarrow> 'a list option \<Rightarrow>
   'a option list option \<Rightarrow> 'a csrmv_route" where
  "aoclsparse_dcsrmv_route USE_AVX512 is_avx512 trans_op m n nnz csr_val csr_col_ind csr_row_ptr
      descr x y =
    (case descr of
       None \<Rightarrow> Return aoclsparse_status_invalid_pointer
     | Some d \<Rightarrow>
        if descr_base d \<noteq> aoclsparse_index_base_zero then
          Return aoclsparse_status_not_implemented
        else if descr_type d \<noteq> aoclsparse_matrix_type_general
                \<and> descr_type d \<noteq> aoclsparse_matrix_type_symmetric then
          Return aoclsparse_status_not_implemented
        else if trans_op \<noteq> aoclsparse_operation_none then
          Return aoclsparse_status_not_implemented
        else if m < 0 then Return aoclsparse_status_invalid_size
        else if n < 0 then Return aoclsparse_status_invalid_size
        else if nnz < 0 then Return aoclsparse_status_invalid_size
        else if m = 0 \<or> n = 0 \<or> nnz = 0 then Return aoclsparse_status_success
        else
          (case csr_val of
             None \<Rightarrow> Return aoclsparse_status_invalid_pointer
           | Some v \<Rightarrow>
          (case csr_row_ptr of
             None \<Rightarrow> Return aoclsparse_status_invalid_pointer
           | Some r \<Rightarrow>
          (case csr_col_ind of
             None \<Rightarrow> Return aoclsparse_status_invalid_pointer
           | Some c \<Rightarrow>
          (case x of
             None \<Rightarrow> Return aoclsparse_status_invalid_pointer
           | Some xv \<Rightarrow>
          (case y of
             None \<Rightarrow> Return aoclsparse_status_invalid_pointer
           | Some yv \<Rightarrow>
              if descr_type d = aoclsparse_matrix_type_symmetric then
                Invoke csrmv_symm v c r xv yv
              else if nnz \<le> aoclsparse_int_wrap (10 * m) then
                Invoke csrmv_general v c r xv yv
              else if USE_AVX512 then
                (if is_avx512 then Invoke csrmv_vectorized_avx512 v c r xv yv
                 else Invoke csrmv_vectorized_avx2 v c r xv yv)
              else
                Invoke csrmv_vectorized_avx2 v c r xv yv))))))"


section \<open>The vectorised SpMV kernels (aoclsparse\_csrmv.cpp)\<close>

text \<open>
  The kernels compute in \<open>float\<close> or \<open>double\<close>. The arithmetic of the element type is a
  parameter, with no law assumed of it: the sum and the product of two values, the fused
  multiply-add of the vector instructions (\<open>a * b + c\<close> with one rounding), the value of the
  C++ expression \<open>c + a * b\<close> (which a compiler may or may not contract to a fused
  operation), the comparison \<open>==\<close>, and the constants \<open>0\<close> and \<open>1\<close>.
\<close>

record 'a arith =
  fp_add :: "'a \<Rightarrow> 'a \<Rightarrow> 'a"
  fp_mul :: "'a \<Rightarrow> 'a \<Rightarrow> 'a"
  fp_fma :: "'a \<Rightarrow> 'a \<Rightarrow> 'a \<Rightarrow> 'a"
  fp_muladd :: "'a \<Rightarrow> 'a \<Rightarrow> 'a \<Rightarrow> 'a"
  fp_eq :: "'a \<Rightarrow> 'a \<Rightarrow> bool"
  fp_zero :: 'a
  fp_one :: 'a

text \<open>Arithmetic without rounding, in a commutative ring.\<close>

definition exact_arith :: "('a::comm_ring_1) arith" where
  "exact_arith =
    \<lparr>fp_add = (\<lambda>a b. a + b), fp_mul = (\<lambda>a b. a * b), fp_fma = (\<lambda>a b c. a * b + c),
     fp_muladd = (\<lambda>a b c. c + a * b), fp_eq = (\<lambda>a b. a = b), fp_zero = 0, fp_one = 1\<rparr>"





text \<open>
  A vector register is the list of its lanes, lane 0 first. Array reads are \<open>xs ! nat j\<close>;
  the C++ reads are undefined outside the arrays.
\<close>

definition loadu :: "nat \<Rightarrow> 'a list \<Rightarrow> int \<Rightarrow> 'a list" where
  \<comment> \<open>\<open>_mm256_loadu_ps(&a[j])\<close>, \<open>_mm256_loadu_pd\<close>, \<open>_mm512_loadu_pd\<close>: \<open>w\<close> consecutive lanes\<close>
  "loadu w a j = map (\<lambda>k. a ! nat (j + int k)) [0..<w]"

definition gather :: "nat \<Rightarrow> 'a list \<Rightarrow> int list \<Rightarrow> int \<Rightarrow> 'a list" where
  \<comment> \<open>\<open>_mm256_set_ps(x[col[j + 7]], ..., x[col[j]])\<close> and its \<open>pd\<close> forms: lane \<open>k\<close> is
      \<open>x[col[j + k]]\<close>\<close>
  "gather w x csr_col_ind j = map (\<lambda>k. x ! nat (csr_col_ind ! nat (j + int k))) [0..<w]"

definition fmadd :: "'a arith \<Rightarrow> 'a list \<Rightarrow> 'a list \<Rightarrow> 'a list \<Rightarrow> 'a list" where
  \<comment> \<open>\<open>_mm256_fmadd_ps\<close>, \<open>_mm256_fmadd_pd\<close>, \<open>_mm512_fmadd_pd\<close>\<close>
  "fmadd fp a b c = map (\<lambda>(p, q, r). fp_fma fp p q r) (zip a (zip b c))"

definition setzero :: "'a arith \<Rightarrow> nat \<Rightarrow> 'a list" where
  "setzero fp w = replicate w (fp_zero fp)"

definition add_lanes :: "'a arith \<Rightarrow> 'a list \<Rightarrow> 'a list \<Rightarrow> 'a list" where
  \<comment> \<open>\<open>_mm_add_ps\<close>, \<open>_mm_add_pd\<close>, \<open>_mm256_add_pd\<close>\<close>
  "add_lanes fp a b = map (\<lambda>(p, q). fp_add fp p q) (zip a b)"

definition mm_movehl_ps :: "'a list \<Rightarrow> 'a list \<Rightarrow> 'a list" where
  "mm_movehl_ps a b = [b ! 2, b ! 3, a ! 2, a ! 3]"

definition mm_shuffle_ps_0x1 :: "'a list \<Rightarrow> 'a list \<Rightarrow> 'a list" where
  "mm_shuffle_ps_0x1 a b = [a ! 1, a ! 0, b ! 0, b ! 0]"

definition mm_add_ss :: "'a arith \<Rightarrow> 'a list \<Rightarrow> 'a list \<Rightarrow> 'a list" where
  "mm_add_ss fp a b = fp_add fp (a ! 0) (b ! 0) # tl a"

definition mm256_hadd_pd :: "'a arith \<Rightarrow> 'a list \<Rightarrow> 'a list \<Rightarrow> 'a list" where
  "mm256_hadd_pd fp a b =
    [fp_add fp (a ! 0) (a ! 1), fp_add fp (b ! 0) (b ! 1),
     fp_add fp (a ! 2) (a ! 3), fp_add fp (b ! 2) (b ! 3)]"

text \<open>The horizontal addition of the single-precision kernel (lines 75 to 96).\<close>

definition hsum_ps :: "'a arith \<Rightarrow> 'a list \<Rightarrow> 'a" where
  "hsum_ps fp vec_y =
    (let hiQuad = drop 4 vec_y;
         loQuad = take 4 vec_y;
         sumQuad = add_lanes fp loQuad hiQuad;
         loDual = sumQuad;
         hiDual = mm_movehl_ps sumQuad sumQuad;
         sumDual = add_lanes fp loDual hiDual;
         lo = sumDual;
         hi = mm_shuffle_ps_0x1 sumDual sumDual;
         sum = mm_add_ss fp lo hi
     in sum ! 0)"

text \<open>The horizontal addition of the double-precision kernels on a 256-bit register.\<close>

definition hsum_pd :: "'a arith \<Rightarrow> 'a list \<Rightarrow> 'a" where
  "hsum_pd fp vec_y0 =
    (let vec_y = mm256_hadd_pd fp vec_y0 vec_y0;
         sum_lo = take 2 vec_y;
         sum_hi = drop 2 vec_y;
         sse_sum = add_lanes fp sum_lo sum_hi
     in sse_sum ! 0)"

function vec_loop8 ::
  "'a arith \<Rightarrow> 'a list \<Rightarrow> int list \<Rightarrow> 'a list \<Rightarrow> int \<Rightarrow> int \<Rightarrow> 'a list \<Rightarrow> 'a list" where
  "vec_loop8 fp csr_val csr_col_ind x j jend vec_y =
    (if j < jend then
       vec_loop8 fp csr_val csr_col_ind x (j + 8) jend
         (fmadd fp (loadu 8 csr_val j) (gather 8 x csr_col_ind j) vec_y)
     else vec_y)"
  by pat_completeness auto
termination
  by (relation "measure (\<lambda>(fp, csr_val, csr_col_ind, x, j, jend, vec_y). nat (jend - j))") auto

function vec_loop4 ::
  "'a arith \<Rightarrow> 'a list \<Rightarrow> int list \<Rightarrow> 'a list \<Rightarrow> int \<Rightarrow> int \<Rightarrow> 'a list \<Rightarrow> 'a list" where
  "vec_loop4 fp csr_val csr_col_ind x j jend vec_y =
    (if j < jend then
       vec_loop4 fp csr_val csr_col_ind x (j + 4) jend
         (fmadd fp (loadu 4 csr_val j) (gather 4 x csr_col_ind j) vec_y)
     else vec_y)"
  by pat_completeness auto
termination
  by (relation "measure (\<lambda>(fp, csr_val, csr_col_ind, x, j, jend, vec_y). nat (jend - j))") auto

text \<open>The remainder loop: \<open>result += csr_val[j] * x[csr_col_ind[j]]\<close>.\<close>

function remainder_loop ::
  "'a arith \<Rightarrow> 'a list \<Rightarrow> int list \<Rightarrow> 'a list \<Rightarrow> int \<Rightarrow> int \<Rightarrow> 'a \<Rightarrow> 'a" where
  "remainder_loop fp csr_val csr_col_ind x j jend result =
    (if j < jend then
       remainder_loop fp csr_val csr_col_ind x (j + 1) jend
         (fp_muladd fp (csr_val ! nat j) (x ! nat (csr_col_ind ! nat j)) result)
     else result)"
  by pat_completeness auto
termination
  by (relation "measure (\<lambda>(fp, csr_val, csr_col_ind, x, j, jend, result). nat (jend - j))") auto

declare vec_loop8.simps [simp del] vec_loop4.simps [simp del] remainder_loop.simps [simp del]

text \<open>
  The end of every row body: \<open>if (alpha != 1) result = alpha * result;
  if (beta != 0) result += beta * y[i]; y[i] = result\<close>. Reading a cell of \<open>y\<close> that was
  never written yields no value, so the cell stays without one.
\<close>

definition scale_store ::
  "'a arith \<Rightarrow> 'a \<Rightarrow> 'a \<Rightarrow> 'a \<Rightarrow> 'a option list \<Rightarrow> int \<Rightarrow> 'a option list" where
  "scale_store fp alpha beta result0 y i =
    (let result = (if \<not> fp_eq fp alpha (fp_one fp) then fp_mul fp alpha result0 else result0)
     in if \<not> fp_eq fp beta (fp_zero fp) then
          y[nat i := map_option (\<lambda>yi. fp_muladd fp beta yi result) (y ! nat i)]
        else y[nat i := Some result])"

text \<open>
  Row \<open>i\<close> of the three kernels, up to the scaling: the value of \<open>result\<close> after the
  remainder loop. C++ \<open>/\<close> and \<open>%\<close> truncate towards zero.
\<close>

definition row_sum_ps ::
  "'a arith \<Rightarrow> 'a list \<Rightarrow> int list \<Rightarrow> int list \<Rightarrow> 'a list \<Rightarrow> int \<Rightarrow> 'a" where
  "row_sum_ps fp csr_val csr_col_ind csr_row_ptr x i =
    (let nnz = csr_row_ptr ! nat (i + 1) - csr_row_ptr ! nat i;
         k_iter = nnz sdiv 8;
         k_rem = nnz smod 8;
         vec_y = vec_loop8 fp csr_val csr_col_ind x (csr_row_ptr ! nat i)
                   (csr_row_ptr ! nat (i + 1) - k_rem) (setzero fp 8);
         result = (if k_iter \<noteq> 0 then hsum_ps fp vec_y else fp_zero fp)
     in remainder_loop fp csr_val csr_col_ind x (csr_row_ptr ! nat (i + 1) - k_rem)
          (csr_row_ptr ! nat (i + 1)) result)"

definition row_sum_pd512 ::
  "'a arith \<Rightarrow> 'a list \<Rightarrow> int list \<Rightarrow> int list \<Rightarrow> 'a list \<Rightarrow> int \<Rightarrow> 'a" where
  "row_sum_pd512 fp csr_val csr_col_ind csr_row_ptr x i =
    (let nnz = csr_row_ptr ! nat (i + 1) - csr_row_ptr ! nat i;
         k_iter = nnz sdiv 8;
         k_rem = nnz smod 8;
         vec_y_512 = vec_loop8 fp csr_val csr_col_ind x (csr_row_ptr ! nat i)
                       (csr_row_ptr ! nat (i + 1) - k_rem) (setzero fp 8);
         vec_y = add_lanes fp (take 4 vec_y_512) (drop 4 vec_y_512);
         result = (if k_iter \<noteq> 0 then hsum_pd fp vec_y else fp_zero fp)
     in remainder_loop fp csr_val csr_col_ind x (csr_row_ptr ! nat (i + 1) - k_rem)
          (csr_row_ptr ! nat (i + 1)) result)"

definition row_sum_pd ::
  "'a arith \<Rightarrow> 'a list \<Rightarrow> int list \<Rightarrow> int list \<Rightarrow> 'a list \<Rightarrow> int \<Rightarrow> 'a" where
  "row_sum_pd fp csr_val csr_col_ind csr_row_ptr x i =
    (let nnz = csr_row_ptr ! nat (i + 1) - csr_row_ptr ! nat i;
         k_iter = nnz sdiv 4;
         k_rem = nnz smod 4;
         vec_y = vec_loop4 fp csr_val csr_col_ind x (csr_row_ptr ! nat i)
                   (csr_row_ptr ! nat (i + 1) - k_rem) (setzero fp 4);
         result = (if k_iter \<noteq> 0 then hsum_pd fp vec_y else fp_zero fp)
     in remainder_loop fp csr_val csr_col_ind x (csr_row_ptr ! nat (i + 1) - k_rem)
          (csr_row_ptr ! nat (i + 1)) result)"

text \<open>The body of the row loop of each kernel.\<close>

definition row_vectorized ::
  "'a arith \<Rightarrow> 'a \<Rightarrow> 'a list \<Rightarrow> int list \<Rightarrow> int list \<Rightarrow> 'a list \<Rightarrow> 'a \<Rightarrow> int \<Rightarrow>
   'a option list \<Rightarrow> 'a option list" where
  "row_vectorized fp alpha csr_val csr_col_ind csr_row_ptr x beta i y =
    scale_store fp alpha beta (row_sum_ps fp csr_val csr_col_ind csr_row_ptr x i) y i"

definition row_vectorized_avx512 ::
  "'a arith \<Rightarrow> 'a \<Rightarrow> 'a list \<Rightarrow> int list \<Rightarrow> int list \<Rightarrow> 'a list \<Rightarrow> 'a \<Rightarrow> int \<Rightarrow>
   'a option list \<Rightarrow> 'a option list" where
  "row_vectorized_avx512 fp alpha csr_val csr_col_ind csr_row_ptr x beta i y =
    scale_store fp alpha beta (row_sum_pd512 fp csr_val csr_col_ind csr_row_ptr x i) y i"

definition row_vectorized_avx2 ::
  "'a arith \<Rightarrow> 'a \<Rightarrow> 'a list \<Rightarrow> int list \<Rightarrow> int list \<Rightarrow> 'a list \<Rightarrow> 'a \<Rightarrow> int \<Rightarrow>
   'a option list \<Rightarrow> 'a option list" where
  "row_vectorized_avx2 fp alpha csr_val csr_col_ind csr_row_ptr x beta i y =
    scale_store fp alpha beta (row_sum_pd fp csr_val csr_col_ind csr_row_ptr x i) y i"

text \<open>
  The row loops of the single-precision kernel and of the double-precision AVX2 kernel
  stand under \<open>#pragma omp parallel for num_threads(context->num_threads)\<close> when the
  library is compiled with \<open>_OPENMP\<close>; the second has the clause
  \<open>schedule(dynamic, m / context->num_threads)\<close> in addition. The iterations share no
  variable that one of them writes (iteration \<open>i\<close> writes \<open>y[i]\<close> alone, and the vector
  registers are private), so that a run of the loop is a run of the iterations one after
  the other, in an order that the runtime chooses: \<open>omp_order\<close>, which lists every
  iteration once. OpenMP requires the number of threads and the chunk size of a schedule to
  be positive; it gives no meaning to the loop otherwise (with the GNU runtime a dynamic
  schedule of chunk size 0 does not return), and the division \<open>m / num_threads\<close> by zero has
  none in C++. \<open>None\<close> is a loop without a result.
\<close>

record omp_runtime =
  omp_enabled :: bool
  omp_order :: "nat list"

definition omp_parallel_for ::
  "omp_runtime \<Rightarrow> int \<Rightarrow> int option \<Rightarrow> int \<Rightarrow> (nat \<Rightarrow> 's \<Rightarrow> 's) \<Rightarrow> 's \<Rightarrow> 's option" where
  "omp_parallel_for rt num_threads chunk_size m body s =
    (if \<not> omp_enabled rt then Some (fold body [0..<nat m] s)
     else if num_threads \<le> 0 then None
     else
      (case chunk_size of
         None \<Rightarrow> Some (fold body (omp_order rt) s)
       | Some c \<Rightarrow> if c \<le> 0 then None else Some (fold body (omp_order rt) s)))"

type_synonym 'a csrmv_fn =
  "'a \<Rightarrow> int \<Rightarrow> int \<Rightarrow> int \<Rightarrow> 'a list \<Rightarrow> int list \<Rightarrow> int list \<Rightarrow> 'a list \<Rightarrow> 'a \<Rightarrow>
   'a option list \<Rightarrow> (aoclsparse_status \<times> 'a option list) option"

text \<open>
  The three kernels. The last argument is \<open>context->num_threads\<close>, all that is read of the
  context.
\<close>

definition aoclsparse_csrmv_vectorized ::
  "'a arith \<Rightarrow> omp_runtime \<Rightarrow> 'a \<Rightarrow> int \<Rightarrow> int \<Rightarrow> int \<Rightarrow> 'a list \<Rightarrow> int list \<Rightarrow> int list \<Rightarrow>
   'a list \<Rightarrow> 'a \<Rightarrow> 'a option list \<Rightarrow> int \<Rightarrow> (aoclsparse_status \<times> 'a option list) option" where
  "aoclsparse_csrmv_vectorized fp rt alpha m n nnz csr_val csr_col_ind csr_row_ptr x beta y
      num_threads =
    map_option (Pair aoclsparse_status_success)
      (omp_parallel_for rt num_threads None m
         (\<lambda>i. row_vectorized fp alpha csr_val csr_col_ind csr_row_ptr x beta (int i)) y)"

definition aoclsparse_csrmv_vectorized_avx512 ::
  "'a arith \<Rightarrow> 'a \<Rightarrow> int \<Rightarrow> int \<Rightarrow> int \<Rightarrow> 'a list \<Rightarrow> int list \<Rightarrow> int list \<Rightarrow>
   'a list \<Rightarrow> 'a \<Rightarrow> 'a option list \<Rightarrow> int \<Rightarrow> (aoclsparse_status \<times> 'a option list) option" where
  "aoclsparse_csrmv_vectorized_avx512 fp alpha m n nnz csr_val csr_col_ind csr_row_ptr x beta y
      num_threads =
    Some (aoclsparse_status_success,
      fold (\<lambda>i. row_vectorized_avx512 fp alpha csr_val csr_col_ind csr_row_ptr x beta (int i))
        [0..<nat m] y)"

definition aoclsparse_csrmv_vectorized_avx2 ::
  "'a arith \<Rightarrow> omp_runtime \<Rightarrow> 'a \<Rightarrow> int \<Rightarrow> int \<Rightarrow> int \<Rightarrow> 'a list \<Rightarrow> int list \<Rightarrow> int list \<Rightarrow>
   'a list \<Rightarrow> 'a \<Rightarrow> 'a option list \<Rightarrow> int \<Rightarrow> (aoclsparse_status \<times> 'a option list) option" where
  "aoclsparse_csrmv_vectorized_avx2 fp rt alpha m n nnz csr_val csr_col_ind csr_row_ptr x beta y
      num_threads =
    map_option (Pair aoclsparse_status_success)
      (omp_parallel_for rt num_threads (Some (m sdiv num_threads)) m
         (\<lambda>i. row_vectorized_avx2 fp alpha csr_val csr_col_ind csr_row_ptr x beta (int i)) y)"



text \<open>
  The two C wrappers. \<open>aoclsparse_csrmv_symm\<close> and \<open>aoclsparse_csrmv_general\<close> are
  defined in a header that is not part of the sources at hand; they are parameters.
  \<open>alpha\<close> and \<open>beta\<close> are the values the wrappers read through their pointer
  arguments at the tail call, \<open>num_threads\<close> is \<open>global_context.num_threads\<close>, which the
  wrappers copy into the context they hand to the kernel.
\<close>

definition run_kernel ::
  "'a arith \<Rightarrow> omp_runtime \<Rightarrow> int \<Rightarrow> 'a csrmv_fn \<Rightarrow> 'a csrmv_fn \<Rightarrow> csrmv_kernel \<Rightarrow> 'a csrmv_fn" where
  "run_kernel fp rt num_threads symm general k =
    (case k of
       csrmv_symm \<Rightarrow> symm
     | csrmv_general \<Rightarrow> general
     | csrmv_vectorized \<Rightarrow>
         (\<lambda>alpha m n nnz v c r x beta y.
            aoclsparse_csrmv_vectorized fp rt alpha m n nnz v c r x beta y num_threads)
     | csrmv_vectorized_avx2 \<Rightarrow>
         (\<lambda>alpha m n nnz v c r x beta y.
            aoclsparse_csrmv_vectorized_avx2 fp rt alpha m n nnz v c r x beta y num_threads)
     | csrmv_vectorized_avx512 \<Rightarrow>
         (\<lambda>alpha m n nnz v c r x beta y.
            aoclsparse_csrmv_vectorized_avx512 fp alpha m n nnz v c r x beta y num_threads))"

definition tail_call ::
  "'a arith \<Rightarrow> omp_runtime \<Rightarrow> int \<Rightarrow> 'a csrmv_fn \<Rightarrow> 'a csrmv_fn \<Rightarrow> 'a \<Rightarrow> int \<Rightarrow> int \<Rightarrow> int \<Rightarrow> 'a \<Rightarrow>
   'a option list option \<Rightarrow> 'a csrmv_route \<Rightarrow>
   (aoclsparse_status \<times> 'a option list option) option" where
  "tail_call fp rt num_threads symm general alpha m n nnz beta y route =
    (case route of
       Return st \<Rightarrow> Some (st, y)
     | Invoke k v c r xv yv \<Rightarrow>
         map_option (\<lambda>(st, y'). (st, Some y'))
           (run_kernel fp rt num_threads symm general k alpha m n nnz v c r xv beta yv))"

definition aoclsparse_scsrmv ::
  "'a arith \<Rightarrow> omp_runtime \<Rightarrow> int \<Rightarrow> 'a csrmv_fn \<Rightarrow> 'a csrmv_fn \<Rightarrow> aoclsparse_operation \<Rightarrow> 'a \<Rightarrow>
   int \<Rightarrow> int \<Rightarrow> int \<Rightarrow> 'a list option \<Rightarrow> int list option \<Rightarrow> int list option \<Rightarrow>
   aoclsparse_mat_descr option \<Rightarrow> 'a list option \<Rightarrow> 'a \<Rightarrow> 'a option list option \<Rightarrow>
   (aoclsparse_status \<times> 'a option list option) option" where
  "aoclsparse_scsrmv fp rt num_threads symm general trans_op alpha m n nnz csr_val csr_col_ind
      csr_row_ptr descr x beta y =
    tail_call fp rt num_threads symm general alpha m n nnz beta y
      (aoclsparse_scsrmv_route trans_op m n nnz csr_val csr_col_ind csr_row_ptr descr x y)"

definition aoclsparse_dcsrmv ::
  "'a arith \<Rightarrow> omp_runtime \<Rightarrow> int \<Rightarrow> 'a csrmv_fn \<Rightarrow> 'a csrmv_fn \<Rightarrow> bool \<Rightarrow> bool \<Rightarrow>
   aoclsparse_operation \<Rightarrow> 'a \<Rightarrow> int \<Rightarrow> int \<Rightarrow> int \<Rightarrow> 'a list option \<Rightarrow> int list option \<Rightarrow>
   int list option \<Rightarrow> aoclsparse_mat_descr option \<Rightarrow> 'a list option \<Rightarrow> 'a \<Rightarrow>
   'a option list option \<Rightarrow> (aoclsparse_status \<times> 'a option list option) option" where
  "aoclsparse_dcsrmv fp rt num_threads symm general USE_AVX512 is_avx512 trans_op alpha m n nnz
      csr_val csr_col_ind csr_row_ptr descr x beta y =
    tail_call fp rt num_threads symm general alpha m n nnz beta y
      (aoclsparse_dcsrmv_route USE_AVX512 is_avx512 trans_op m n nnz csr_val csr_col_ind
         csr_row_ptr descr x y)"

text \<open>Both wrappers return the status \<open>st\<close> and leave \<open>y\<close> as it was.\<close>

definition csrmv_both_return ::
  "'a arith \<Rightarrow> omp_runtime \<Rightarrow> int \<Rightarrow> 'a csrmv_fn \<Rightarrow> 'a csrmv_fn \<Rightarrow> bool \<Rightarrow> bool \<Rightarrow>
   aoclsparse_operation \<Rightarrow> 'a \<Rightarrow> int \<Rightarrow> int \<Rightarrow> int \<Rightarrow> 'a list option \<Rightarrow> int list option \<Rightarrow>
   int list option \<Rightarrow> aoclsparse_mat_descr option \<Rightarrow> 'a list option \<Rightarrow> 'a \<Rightarrow>
   'a option list option \<Rightarrow> aoclsparse_status \<Rightarrow> bool" where
  "csrmv_both_return fp rt num_threads symm general USE_AVX512 is_avx512 trans_op alpha m n nnz
      csr_val csr_col_ind csr_row_ptr descr x beta y st \<longleftrightarrow>
    aoclsparse_scsrmv fp rt num_threads symm general trans_op alpha m n nnz csr_val csr_col_ind
      csr_row_ptr descr x beta y = Some (st, y)
    \<and> aoclsparse_dcsrmv fp rt num_threads symm general USE_AVX512 is_avx512 trans_op alpha m n nnz
      csr_val csr_col_ind csr_row_ptr descr x beta y = Some (st, y)"

section \<open>Memory\<close>

text \<open>
  The normaliser works on arrays that are reached through pointers, allocates new ones and
  frees old ones. The heap holds the \<open>aoclsparse_int\<close> arrays and the value arrays in two
  stores; an address is an index into a store, a freed array leaves \<open>None\<close> behind, and a
  new array takes the next index, so that it is different from every address handed out
  before. A pointer is an option, \<open>None\<close> being \<open>nullptr\<close>. Two things are not in the hands
  of the program. Whether an allocation succeeds: \<open>avail\<close> is the number of requests that
  will still be granted. And what a new array holds, which C++ leaves indeterminate: cell
  \<open>k\<close> of a new array holds \<open>fresh_ints h k\<close> or \<open>fresh_vals h k\<close>, whatever these are.
  Reading through a pointer that is neither null nor live, and indexing outside an array,
  are undefined in C++; the model gives them no particular meaning.
\<close>

type_synonym addr = nat

record 'a heap =
  int_arrays :: "int list option list"
  val_arrays :: "'a list option list"
  avail :: nat
  fresh_ints :: "nat \<Rightarrow> int"
  fresh_vals :: "nat \<Rightarrow> 'a"

datatype cpp_exception = bad_alloc | length_error

definition int_array :: "'a heap \<Rightarrow> addr option \<Rightarrow> int list option" where
  "int_array h p =
    (case p of None \<Rightarrow> None
     | Some a \<Rightarrow> if a < length (int_arrays h) then int_arrays h ! a else None)"

definition val_array :: "'a heap \<Rightarrow> addr option \<Rightarrow> 'a list option" where
  "val_array h p =
    (case p of None \<Rightarrow> None
     | Some a \<Rightarrow> if a < length (val_arrays h) then val_arrays h ! a else None)"

definition deref_int :: "'a heap \<Rightarrow> addr option \<Rightarrow> int list" where
  "deref_int h p = (case int_array h p of Some xs \<Rightarrow> xs | None \<Rightarrow> [])"

definition deref_val :: "'a heap \<Rightarrow> addr option \<Rightarrow> 'a list" where
  "deref_val h p = (case val_array h p of Some xs \<Rightarrow> xs | None \<Rightarrow> [])"

text \<open>\<open>p[i]\<close> as an rvalue and as the target of an assignment.\<close>

definition load_int :: "'a heap \<Rightarrow> addr option \<Rightarrow> int \<Rightarrow> int" where
  "load_int h p i = deref_int h p ! nat i"

definition load_val :: "'a heap \<Rightarrow> addr option \<Rightarrow> int \<Rightarrow> 'a" where
  "load_val h p i = deref_val h p ! nat i"

definition set_int_array :: "addr \<Rightarrow> int list \<Rightarrow> 'a heap \<Rightarrow> 'a heap" where
  "set_int_array a xs h = h\<lparr>int_arrays := (int_arrays h)[a := Some xs]\<rparr>"

definition set_val_array :: "addr \<Rightarrow> 'a list \<Rightarrow> 'a heap \<Rightarrow> 'a heap" where
  "set_val_array a xs h = h\<lparr>val_arrays := (val_arrays h)[a := Some xs]\<rparr>"

definition store_int :: "addr option \<Rightarrow> int \<Rightarrow> int \<Rightarrow> 'a heap \<Rightarrow> 'a heap" where
  "store_int p i v h =
    (case p of None \<Rightarrow> h
     | Some a \<Rightarrow>
        (case int_array h p of None \<Rightarrow> h
         | Some xs \<Rightarrow> set_int_array a (xs[nat i := v]) h))"

definition store_val :: "addr option \<Rightarrow> int \<Rightarrow> 'a \<Rightarrow> 'a heap \<Rightarrow> 'a heap" where
  "store_val p i v h =
    (case p of None \<Rightarrow> h
     | Some a \<Rightarrow>
        (case val_array h p of None \<Rightarrow> h
         | Some xs \<Rightarrow> set_val_array a (xs[nat i := v]) h))"

text \<open>
  \<open>new aoclsparse_int[n]\<close> and \<open>::operator new(n * sizeof(T))\<close>: \<open>None\<close> stands for the
  \<open>std::bad_alloc\<close> they throw (a negative \<open>n\<close> throws \<open>std::bad_array_new_length\<close>, which
  is a \<open>std::bad_alloc\<close>, or asks for more bytes than there are).
\<close>

definition new_array :: "int \<Rightarrow> 'a heap \<Rightarrow> (addr \<times> 'a heap) option" where
  "new_array n h =
    (if n < 0 \<or> avail h = 0 then None
     else Some (length (int_arrays h),
                h\<lparr>int_arrays := int_arrays h @ [Some (map (fresh_ints h) [0..<nat n])],
                  avail := avail h - 1\<rparr>))"

definition operator_new :: "int \<Rightarrow> 'a heap \<Rightarrow> (addr \<times> 'a heap) option" where
  "operator_new n h =
    (if n < 0 \<or> avail h = 0 then None
     else Some (length (val_arrays h),
                h\<lparr>val_arrays := val_arrays h @ [Some (map (fresh_vals h) [0..<nat n])],
                  avail := avail h - 1\<rparr>))"

text \<open>\<open>delete[] p\<close> and \<open>::operator delete(p)\<close>; both do nothing on \<open>nullptr\<close>.\<close>

definition delete_array :: "addr option \<Rightarrow> 'a heap \<Rightarrow> 'a heap" where
  "delete_array p h =
    (case p of None \<Rightarrow> h | Some a \<Rightarrow> h\<lparr>int_arrays := (int_arrays h)[a := None]\<rparr>)"

definition operator_delete :: "addr option \<Rightarrow> 'a heap \<Rightarrow> 'a heap" where
  "operator_delete p h =
    (case p of None \<Rightarrow> h | Some a \<Rightarrow> h\<lparr>val_arrays := (val_arrays h)[a := None]\<rparr>)"

text \<open>
  The storage of a \<open>std::vector<aoclsparse_int>\<close> of \<open>n\<close> elements (constructor and
  \<open>resize\<close> on an empty vector). A vector of no element allocates nothing. A negative \<open>n\<close>
  converts to a size beyond \<open>max_size()\<close> and throws \<open>std::length_error\<close>. The vector
  itself is a local list of the function that owns it.
\<close>

definition vector_alloc :: "int \<Rightarrow> 'a heap \<Rightarrow> cpp_exception + 'a heap" where
  "vector_alloc n h =
    (if n < 0 then Inl length_error
     else if n = 0 then Inr h
     else if avail h = 0 then Inl bad_alloc
     else Inr (h\<lparr>avail := avail h - 1\<rparr>))"

section \<open>The CSR structure and the matrix handle\<close>

record aoclsparse_csr =
  csr_row_ptr :: "addr option"
  csr_col_ptr :: "addr option"
  csr_val :: "addr option"

text \<open>
  The fields of the handle that the code at hand reads or writes. \<open>idiag\<close> and \<open>iurow\<close> are
  held by value: the routine that builds them is not part of the sources at hand.
\<close>

record aoclsparse_matrix =
  mat_m :: int
  mat_n :: int
  mat_nnz :: int
  mat_base :: aoclsparse_index_base
  val_type :: aoclsparse_matrix_data_type
  csr_mat :: aoclsparse_csr
  opt_csr_mat :: aoclsparse_csr
  opt_csr_is_users :: bool
  internal_base_index :: aoclsparse_index_base
  idiag :: "int list option"
  iurow :: "int list option"
  opt_csr_ready :: bool
  opt_csr_full_diag :: bool
  optimized :: bool

text \<open>The element type a template is instantiated with.\<close>

datatype template_type = T_float | T_double | T_complex_float | T_complex_double

section \<open>The SpGEMM type dispatcher (aoclsparse\_sp2m.cpp)\<close>

text \<open>
  \<open>aoclsparse_csr2m_t<T>\<close> is defined in a header that is not part of the sources at hand;
  it is the parameter \<open>csr2m_t\<close>, applied to the template argument and to the eight
  arguments of the call. The output slot \<open>C\<close> is a pointer: \<open>None\<close> is \<open>nullptr\<close>,
  \<open>Some c\<close> a slot holding \<open>c\<close>. The kernel returns its status and what it leaves in the
  slot.
\<close>

definition aoclsparse_sp2m ::
  "(template_type \<Rightarrow> aoclsparse_operation \<Rightarrow> 'd \<Rightarrow> aoclsparse_matrix \<Rightarrow> aoclsparse_operation \<Rightarrow>
      'd \<Rightarrow> aoclsparse_matrix \<Rightarrow> 'q \<Rightarrow> 'c \<Rightarrow> aoclsparse_status \<times> 'c) \<Rightarrow>
   aoclsparse_operation \<Rightarrow> 'd \<Rightarrow> aoclsparse_matrix option \<Rightarrow> aoclsparse_operation \<Rightarrow> 'd \<Rightarrow>
   aoclsparse_matrix option \<Rightarrow> 'q \<Rightarrow> 'c option \<Rightarrow> aoclsparse_status \<times> 'c option" where
  "aoclsparse_sp2m csr2m_t opA descrA A opB descrB B request C =
    (case (A, B, C) of
       (Some a, Some b, Some c) \<Rightarrow>
         if val_type a = aoclsparse_smat \<and> val_type b = aoclsparse_smat then
           map_prod id Some (csr2m_t T_float opA descrA a opB descrB b request c)
         else if val_type a = aoclsparse_dmat \<and> val_type b = aoclsparse_dmat then
           map_prod id Some (csr2m_t T_double opA descrA a opB descrB b request c)
         else if val_type a = aoclsparse_cmat \<and> val_type b = aoclsparse_cmat then
           map_prod id Some (csr2m_t T_complex_float opA descrA a opB descrB b request c)
         else if val_type a = aoclsparse_zmat \<and> val_type b = aoclsparse_zmat then
           map_prod id Some (csr2m_t T_complex_double opA descrA a opB descrB b request c)
         else (aoclsparse_status_wrong_type, C)
     | _ \<Rightarrow> (aoclsparse_status_invalid_pointer, C))"

text \<open>The template argument that stands for a value type of the handle.\<close>

definition template_of :: "aoclsparse_matrix_data_type \<Rightarrow> template_type" where
  "template_of t =
    (case t of
       aoclsparse_smat \<Rightarrow> T_float
     | aoclsparse_dmat \<Rightarrow> T_double
     | aoclsparse_cmat \<Rightarrow> T_complex_float
     | aoclsparse_zmat \<Rightarrow> T_complex_double)"

section \<open>The normaliser (aoclsparse\_csr\_util.hpp)\<close>

subsection \<open>aoclsparse\_copy\_csr\<close>

text \<open>
  The handler of \<open>std::bad_alloc\<close>: it frees whatever the three fields of \<open>As\<close> point to
  at that moment, the arrays allocated so far and, for the fields not yet assigned, what
  they held on entry.
\<close>

definition copy_csr_handler ::
  "aoclsparse_csr \<Rightarrow> 'a heap \<Rightarrow> aoclsparse_status \<times> aoclsparse_csr \<times> 'a heap" where
  "copy_csr_handler As h =
    (aoclsparse_status_memory_error, As,
     operator_delete (csr_val As) (delete_array (csr_col_ptr As) (delete_array (csr_row_ptr As) h)))"

definition aoclsparse_copy_csr ::
  "int \<Rightarrow> int \<Rightarrow> int \<Rightarrow> aoclsparse_index_base \<Rightarrow> aoclsparse_csr \<Rightarrow> aoclsparse_csr \<Rightarrow>
   'a heap \<Rightarrow> aoclsparse_status \<times> aoclsparse_csr \<times> 'a heap" where
  "aoclsparse_copy_csr m n nnz base A As h =
    (if m < 0 then (aoclsparse_status_invalid_size, As, h)
     else if csr_col_ptr A = None \<or> csr_row_ptr A = None \<or> csr_val A = None then
       (aoclsparse_status_invalid_pointer, As, h)
     else if m = 0 \<or> nnz = 0 then (aoclsparse_status_success, As, h)
     else
      (case new_array (m + 1) h of
         None \<Rightarrow> copy_csr_handler As h
       | Some (p1, h1) \<Rightarrow>
      (case new_array nnz h1 of
         None \<Rightarrow> copy_csr_handler (As\<lparr>csr_row_ptr := Some p1\<rparr>) h1
       | Some (p2, h2) \<Rightarrow>
      (case operator_new nnz h2 of
         None \<Rightarrow> copy_csr_handler (As\<lparr>csr_row_ptr := Some p1, csr_col_ptr := Some p2\<rparr>) h2
       | Some (p3, h3) \<Rightarrow>
          (let As' = As\<lparr>csr_row_ptr := Some p1, csr_col_ptr := Some p2, csr_val := Some p3\<rparr>;
               h4 = fold (\<lambda>i h. store_int (csr_row_ptr As') (int i)
                                  (load_int h (csr_row_ptr A) (int i) - base) h)
                      [0..<nat (m + 1)] h3;
               h5 = fold (\<lambda>i h. store_val (csr_val As') (int i) (load_val h (csr_val A) (int i))
                                  (store_int (csr_col_ptr As') (int i)
                                     (load_int h (csr_col_ptr A) (int i) - base) h))
                      [0..<nat nnz] h4
           in (aoclsparse_status_success, As', h5))))))"

subsection \<open>aoclsparse\_sort\_csr\<close>

text \<open>
  \<open>std::sort\<close> belongs to the C++ library, not to this repository. It is modelled by the
  insertion sort that the library runs on short ranges, driven by the comparison it is
  given: every element in turn is moved in front of the first element of the sorted prefix
  that the comparison puts it before. The standard asks for a strict weak ordering and
  promises no stability; on a range whose keys are pairwise distinct every implementation
  returns the same list. The comparison of \<open>aoclsparse_sort_csr\<close> is \<open><=\<close>, which is not
  a strict weak ordering: it holds of two elements with the same key in both directions,
  and the insertion sort then moves the later element in front of the earlier one.
\<close>

fun linear_insert :: "('b \<Rightarrow> 'b \<Rightarrow> bool) \<Rightarrow> 'b \<Rightarrow> 'b list \<Rightarrow> 'b list" where
  "linear_insert cmp v [] = [v]"
| "linear_insert cmp v (y # ys) =
     (if cmp v y then v # y # ys else y # linear_insert cmp v ys)"

definition std_sort :: "('b \<Rightarrow> 'b \<Rightarrow> bool) \<Rightarrow> 'b list \<Rightarrow> 'b list" where
  "std_sort cmp xs = foldl (\<lambda>prefix v. linear_insert cmp v prefix) [] xs"

text \<open>
  One pass of the row loop: the slice of \<open>perm\<close> that belongs to row \<open>i\<close> is sorted with
  the comparison \<open>A->csr_col_ptr[a] <= A->csr_col_ptr[b]\<close>, then the row of \<open>As\<close> is
  written through \<open>perm\<close>.
\<close>

definition sort_csr_row ::
  "aoclsparse_index_base \<Rightarrow> aoclsparse_csr \<Rightarrow> aoclsparse_csr \<Rightarrow> nat \<Rightarrow>
   int list \<times> 'a heap \<Rightarrow> int list \<times> 'a heap" where
  "sort_csr_row base A As i = (\<lambda>(perm, h).
    (let idx = load_int h (csr_row_ptr A) (int i) - base;
         nnzrow = load_int h (csr_row_ptr A) (int i + 1) - base - idx;
         perm' = take (nat idx) perm
                 @ std_sort (\<lambda>a b. load_int h (csr_col_ptr A) a \<le> load_int h (csr_col_ptr A) b)
                     (take (nat nnzrow) (drop (nat idx) perm))
                 @ drop (nat idx + nat nnzrow) perm;
         h' = fold (\<lambda>j h. store_val (csr_val As) j (load_val h (csr_val A) (perm' ! nat j))
                            (store_int (csr_col_ptr As) j
                               (load_int h (csr_col_ptr A) (perm' ! nat j) - base) h))
                [idx .. idx + nnzrow - 1] h
     in (perm', h')))"

definition aoclsparse_sort_csr ::
  "int \<Rightarrow> int \<Rightarrow> int \<Rightarrow> aoclsparse_index_base \<Rightarrow> aoclsparse_csr \<Rightarrow> aoclsparse_csr \<Rightarrow>
   'a heap \<Rightarrow> cpp_exception + aoclsparse_status \<times> 'a heap" where
  "aoclsparse_sort_csr m n nnz base A As h =
    (if m = 0 \<or> nnz = 0 then Inr (aoclsparse_status_success, h)
     else if csr_col_ptr A = None \<or> csr_row_ptr A = None \<or> csr_val A = None then
       Inr (aoclsparse_status_invalid_pointer, h)
     else
      (case vector_alloc nnz h of
         Inl bad_alloc \<Rightarrow> Inr (aoclsparse_status_memory_error, h)
       | Inl length_error \<Rightarrow> Inl length_error
       | Inr h1 \<Rightarrow>
          Inr (aoclsparse_status_success,
               snd (fold (sort_csr_row base A As) [0..<nat m] (map int [0..<nat nnz], h1)))))"

subsection \<open>aoclsparse\_csr\_fill\_diag\<close>

text \<open>
  The scan of one row for its diagonal element; the result is \<open>diag_found\<close> and the
  value of \<open>idx\<close> when the loop is left.
\<close>

function diag_scan :: "int list \<Rightarrow> aoclsparse_index_base \<Rightarrow> int \<Rightarrow> int \<Rightarrow> int \<Rightarrow> bool \<times> int" where
  "diag_scan col base i idx idxend =
    (if idx < idxend then
       (let j = col ! nat idx - base
        in if i = j then (True, idx)
           else if j > i then (False, idx)
           else diag_scan col base i (idx + 1) idxend)
     else (False, idx))"
  by pat_completeness auto
termination
  by (relation "measure (\<lambda>(col, base, i, idx, idxend). nat (idxend - idx))") auto

declare diag_scan.simps [simp del]

definition check_row ::
  "int list \<Rightarrow> int list \<Rightarrow> aoclsparse_index_base \<Rightarrow> int \<Rightarrow> nat \<Rightarrow> int \<times> int list \<Rightarrow> int \<times> int list" where
  "check_row row col base n i = (\<lambda>(count, missing_diag).
    (let idxend = row ! (i + 1) - base;
         (diag_found, idx) = diag_scan col base (int i) (row ! i - base) idxend
     in if \<not> diag_found \<and> int i < n then (count + 1, missing_diag[i := idx + count])
        else (count, missing_diag)))"

text \<open>
  The second pass writes the local arrays \<open>icrow\<close>, \<open>icol\<close> and \<open>aval\<close>. They are fresh
  allocations that no other pointer reaches before they are handed to \<open>A\<close>, so the loops
  run on their contents, read from the heap before the pass (whatever the allocation left
  there) and stored at their addresses after it. The state of the inner loop is
  \<open>(n_added, nnz_curr, icol, aval)\<close>.
\<close>

function fill_row ::
  "int list \<Rightarrow> ('a::zero) list \<Rightarrow> aoclsparse_index_base \<Rightarrow> int \<Rightarrow> int \<Rightarrow> int \<Rightarrow> int \<Rightarrow>
   int \<times> int \<times> int list \<times> 'a list \<Rightarrow> int \<times> int \<times> int list \<times> 'a list" where
  "fill_row col vals base i md idx idxend (n_added, nnz_curr, icol, aval) =
    (if idx < idxend then
       (let (n_added, nnz_curr, icol, aval) =
              (if nnz_curr = md then
                 (n_added + 1, nnz_curr + 1, icol[nat nnz_curr := i], aval[nat nnz_curr := 0])
               else (n_added, nnz_curr, icol, aval));
            aval = aval[nat nnz_curr := vals ! nat idx];
            icol = icol[nat nnz_curr := col ! nat idx - base]
        in fill_row col vals base i md (idx + 1) idxend (n_added, nnz_curr + 1, icol, aval))
     else (n_added, nnz_curr, icol, aval))"
  by pat_completeness auto
termination
  by (relation "measure (\<lambda>(col, vals, base, i, md, idx, idxend, s). nat (idxend - idx))") auto

declare fill_row.simps [simp del]

definition fill_rows_step ::
  "int list \<Rightarrow> int list \<Rightarrow> ('a::zero) list \<Rightarrow> aoclsparse_index_base \<Rightarrow> int list \<Rightarrow> nat \<Rightarrow>
   int \<times> int \<times> int list \<times> int list \<times> 'a list \<Rightarrow> int \<times> int \<times> int list \<times> int list \<times> 'a list" where
  "fill_rows_step row col vals base missing_diag i = (\<lambda>(n_added, nnz_curr, icrow, icol, aval).
    (let idxend = row ! (i + 1) - base;
         icrow = icrow[i := row ! i - base + n_added];
         (n_added, nnz_curr, icol, aval) =
            fill_row col vals base (int i) (missing_diag ! i) (row ! i - base) idxend
              (n_added, nnz_curr, icol, aval)
     in if nnz_curr = missing_diag ! i then
          (n_added + 1, nnz_curr + 1, icrow, icol[nat nnz_curr := int i], aval[nat nnz_curr := 0])
        else (n_added, nnz_curr, icrow, icol, aval)))"

definition aoclsparse_csr_fill_diag ::
  "int \<Rightarrow> int \<Rightarrow> int \<Rightarrow> aoclsparse_index_base \<Rightarrow> aoclsparse_csr \<Rightarrow> ('a::zero) heap \<Rightarrow>
   cpp_exception + aoclsparse_status \<times> aoclsparse_csr \<times> 'a heap" where
  "aoclsparse_csr_fill_diag m n nnz base A h =
    (case vector_alloc m h of
       Inl length_error \<Rightarrow> Inl length_error
     | Inl bad_alloc \<Rightarrow> Inr (aoclsparse_status_memory_error, A, h)
     | Inr h0 \<Rightarrow>
        if csr_col_ptr A = None \<or> csr_row_ptr A = None \<or> csr_val A = None then
          Inr (aoclsparse_status_invalid_pointer, A, h0)
        else
         (let row = deref_int h0 (csr_row_ptr A);
              col = deref_int h0 (csr_col_ptr A);
              vals = deref_val h0 (csr_val A);
              (count, missing_diag) =
                 fold (check_row row col base n) [0..<nat m] (0, replicate (nat m) (- 1))
          in if count \<le> 0 then Inr (aoclsparse_status_success, A, h0)
             else
              (let nnz_new = nnz + count
               in (case new_array (m + 1) h0 of
                     None \<Rightarrow> Inr (aoclsparse_status_memory_error, A, h0)
                   | Some (icrow, h1) \<Rightarrow>
                  (case new_array nnz_new h1 of
                     None \<Rightarrow> Inr (aoclsparse_status_memory_error, A, delete_array (Some icrow) h1)
                   | Some (icol, h2) \<Rightarrow>
                  (case operator_new nnz_new h2 of
                     None \<Rightarrow>
                       Inr (aoclsparse_status_memory_error, A,
                            delete_array (Some icol) (delete_array (Some icrow) h2))
                   | Some (aval, h3) \<Rightarrow>
                      (let (n_added, nnz_curr, icrow_v, icol_v, aval_v) =
                             fold (fill_rows_step row col vals base missing_diag) [0..<nat m]
                               (0, 0, deref_int h3 (Some icrow), deref_int h3 (Some icol),
                                deref_val h3 (Some aval));
                           icrow_v = icrow_v[nat m := nnz_new];
                           h4 = set_val_array aval aval_v
                                  (set_int_array icol icol_v (set_int_array icrow icrow_v h3));
                           h5 = operator_delete (csr_val A)
                                  (delete_array (csr_row_ptr A) (delete_array (csr_col_ptr A) h4))
                       in Inr (aoclsparse_status_success,
                               A\<lparr>csr_col_ptr := Some icol, csr_row_ptr := Some icrow,
                                 csr_val := Some aval\<rparr>, h5))))))))"

subsection \<open>aoclsparse\_csr\_optimize\<close>







section \<open>Notions used in the statements\<close>

text \<open>A handle of a given value type, with no arrays: an operand for the type dispatcher.\<close>

definition handle_of_type :: "aoclsparse_matrix_data_type \<Rightarrow> aoclsparse_matrix" where
  "handle_of_type t =
    \<lparr>mat_m = 0, mat_n = 0, mat_nnz = 0, mat_base = 0, val_type = t,
     csr_mat = \<lparr>csr_row_ptr = None, csr_col_ptr = None, csr_val = None\<rparr>,
     opt_csr_mat = \<lparr>csr_row_ptr = None, csr_col_ptr = None, csr_val = None\<rparr>,
     opt_csr_is_users = False, internal_base_index = 0, idiag = None, iurow = None,
     opt_csr_ready = False, opt_csr_full_diag = False, optimized = False\<rparr>"

text \<open>
  Every array that the call allocated has been freed again: the slots of \<open>h'\<close> beyond the
  stores of \<open>h\<close> are empty.
\<close>

definition allocations_released :: "'a heap \<Rightarrow> 'a heap \<Rightarrow> bool" where
  "allocations_released h h' \<longleftrightarrow>
    (\<forall>x \<in> set (drop (length (int_arrays h)) (int_arrays h')). x = None)
    \<and> (\<forall>x \<in> set (drop (length (val_arrays h)) (val_arrays h')). x = None)"

text \<open>
  Row \<open>i\<close> of a CSR matrix as the list of its entries, column index (with the base
  removed) and value, in storage order.
\<close>

definition csr_row ::
  "int list \<Rightarrow> int list \<Rightarrow> 'a list \<Rightarrow> aoclsparse_index_base \<Rightarrow> nat \<Rightarrow> (int \<times> 'a) list" where
  "csr_row row col vals base i =
    map (\<lambda>k. (col ! k - base, vals ! k)) [nat (row ! i - base) ..< nat (row ! (i + 1) - base)]"

text \<open>
  What the first pass of \<open>aoclsparse_csr_fill_diag\<close> finds in row \<open>i\<close>: whether the row
  counts as missing its diagonal, and where its scan stopped.
\<close>

definition scan_missing ::
  "int list \<Rightarrow> int list \<Rightarrow> aoclsparse_index_base \<Rightarrow> int \<Rightarrow> nat \<Rightarrow> bool" where
  "scan_missing row col base n i \<longleftrightarrow>
    \<not> fst (diag_scan col base (int i) (row ! i - base) (row ! (i + 1) - base)) \<and> int i < n"

definition scan_pos :: "int list \<Rightarrow> int list \<Rightarrow> aoclsparse_index_base \<Rightarrow> nat \<Rightarrow> int" where
  "scan_pos row col base i =
    snd (diag_scan col base (int i) (row ! i - base) (row ! (i + 1) - base))"

definition scan_count ::
  "int list \<Rightarrow> int list \<Rightarrow> aoclsparse_index_base \<Rightarrow> int \<Rightarrow> nat \<Rightarrow> int" where
  "scan_count row col base n k = int (length (filter (scan_missing row col base n) [0..<k]))"

text \<open>
  Row \<open>i\<close> of a matrix with \<open>n\<close> columns, completed: when \<open>i < n\<close> and no entry of the
  row has the column \<open>i\<close>, a zero is put at column \<open>i\<close>, after the entries of smaller
  column that lead the row; every other row is left as it is.
\<close>

definition with_diagonal :: "int \<Rightarrow> nat \<Rightarrow> (int \<times> 'a::zero) list \<Rightarrow> (int \<times> 'a) list" where
  "with_diagonal n i es =
    (if int i < n \<and> int i \<notin> set (map fst es)
     then takeWhile (\<lambda>e. fst e < int i) es @ [(int i, 0)] @ dropWhile (\<lambda>e. fst e < int i) es
     else es)"


section \<open>Facts about the kernels\<close>




subsection \<open>The value of a row in exact arithmetic\<close>






















subsection \<open>The row loop, in any arithmetic\<close>









section \<open>The dispatcher's decision table\<close>

lemma tail_call_Return [simp]:
  "tail_call fp rt nt symm general alpha m n nnz beta y (Return st) = Some (st, y)"
  by (simp add: tail_call_def)

text \<open>
  C4. Both wrappers decide in this order, and every early return leaves \<open>y\<close> as it was:
  a null descriptor gives \<open>invalid_pointer\<close>; a base other than zero gives
  \<open>not_implemented\<close>; a matrix type other than general and symmetric gives
  \<open>not_implemented\<close>; a transposition gives \<open>not_implemented\<close>; a negative \<open>m\<close>,
  \<open>n\<close> or \<open>nnz\<close> gives \<open>invalid_size\<close>; \<open>m = 0\<close>, \<open>n = 0\<close> or \<open>nnz = 0\<close> gives
  \<open>success\<close>; a null \<open>csr_val\<close>, \<open>csr_row_ptr\<close>, \<open>csr_col_ind\<close>, \<open>x\<close> or \<open>y\<close>
  gives \<open>invalid_pointer\<close>.
\<close>

theorem csrmv_decision_order:
  "(descr = None \<longrightarrow>
      csrmv_both_return fp rt nt symm general U512 is512 trans_op alpha m n nnz vals cind rptr descr x beta y
        aoclsparse_status_invalid_pointer)
   \<and> (\<forall>d. descr = Some d \<longrightarrow>
      (descr_base d \<noteq> aoclsparse_index_base_zero \<longrightarrow>
        csrmv_both_return fp rt nt symm general U512 is512 trans_op alpha m n nnz vals cind rptr descr x beta y
          aoclsparse_status_not_implemented)
    \<and> (descr_base d = aoclsparse_index_base_zero
        \<and> descr_type d \<noteq> aoclsparse_matrix_type_general
        \<and> descr_type d \<noteq> aoclsparse_matrix_type_symmetric \<longrightarrow>
        csrmv_both_return fp rt nt symm general U512 is512 trans_op alpha m n nnz vals cind rptr descr x beta y
          aoclsparse_status_not_implemented)
    \<and> (descr_base d = aoclsparse_index_base_zero
        \<and> (descr_type d = aoclsparse_matrix_type_general
             \<or> descr_type d = aoclsparse_matrix_type_symmetric)
        \<and> trans_op \<noteq> aoclsparse_operation_none \<longrightarrow>
        csrmv_both_return fp rt nt symm general U512 is512 trans_op alpha m n nnz vals cind rptr descr x beta y
          aoclsparse_status_not_implemented)
    \<and> (descr_base d = aoclsparse_index_base_zero
        \<and> (descr_type d = aoclsparse_matrix_type_general
             \<or> descr_type d = aoclsparse_matrix_type_symmetric)
        \<and> trans_op = aoclsparse_operation_none
        \<and> (m < 0 \<or> n < 0 \<or> nnz < 0) \<longrightarrow>
        csrmv_both_return fp rt nt symm general U512 is512 trans_op alpha m n nnz vals cind rptr descr x beta y
          aoclsparse_status_invalid_size)
    \<and> (descr_base d = aoclsparse_index_base_zero
        \<and> (descr_type d = aoclsparse_matrix_type_general
             \<or> descr_type d = aoclsparse_matrix_type_symmetric)
        \<and> trans_op = aoclsparse_operation_none
        \<and> 0 \<le> m \<and> 0 \<le> n \<and> 0 \<le> nnz
        \<and> (m = 0 \<or> n = 0 \<or> nnz = 0) \<longrightarrow>
        csrmv_both_return fp rt nt symm general U512 is512 trans_op alpha m n nnz vals cind rptr descr x beta y
          aoclsparse_status_success)
    \<and> (descr_base d = aoclsparse_index_base_zero
        \<and> (descr_type d = aoclsparse_matrix_type_general
             \<or> descr_type d = aoclsparse_matrix_type_symmetric)
        \<and> trans_op = aoclsparse_operation_none
        \<and> 0 < m \<and> 0 < n \<and> 0 < nnz
        \<and> (vals = None \<or> rptr = None \<or> cind = None \<or> x = None \<or> y = None) \<longrightarrow>
        csrmv_both_return fp rt nt symm general U512 is512 trans_op alpha m n nnz vals cind rptr descr x beta y
          aoclsparse_status_invalid_pointer))"
  by (cases descr)
     (auto simp: csrmv_both_return_def aoclsparse_scsrmv_def aoclsparse_dcsrmv_def
        aoclsparse_scsrmv_route_def aoclsparse_dcsrmv_route_def split: option.splits)

theorem csrmv_decision_order_witness:
  "csrmv_both_return exact_arith \<lparr>omp_enabled = True, omp_order = [0]\<rparr> 2
      (\<lambda>alpha m n nnz v c r x beta y. Some (aoclsparse_status_success, y))
      (\<lambda>alpha m n nnz v c r x beta y. Some (aoclsparse_status_success, y)) True True
      aoclsparse_operation_none (1::int) 1 1 1 None (Some [0]) (Some [0, 1])
      (Some \<lparr>descr_type = aoclsparse_matrix_type_general, descr_base = 0\<rparr>)
      (Some [3]) 0 (Some [Some 7]) aoclsparse_status_invalid_pointer
   \<and> csrmv_both_return exact_arith \<lparr>omp_enabled = True, omp_order = [0]\<rparr> 2
      (\<lambda>alpha m n nnz v c r x beta y. Some (aoclsparse_status_success, y))
      (\<lambda>alpha m n nnz v c r x beta y. Some (aoclsparse_status_success, y)) True True
      aoclsparse_operation_none (1::int) 1 1 0 None None None
      (Some \<lparr>descr_type = aoclsparse_matrix_type_general, descr_base = 0\<rparr>)
      None 0 (Some [Some 7]) aoclsparse_status_success
   \<and> csrmv_both_return exact_arith \<lparr>omp_enabled = True, omp_order = [0]\<rparr> 2
      (\<lambda>alpha m n nnz v c r x beta y. Some (aoclsparse_status_success, y))
      (\<lambda>alpha m n nnz v c r x beta y. Some (aoclsparse_status_success, y)) True True
      aoclsparse_operation_none (1::int) 1 (- 1) 0 None None None
      (Some \<lparr>descr_type = aoclsparse_matrix_type_general, descr_base = 0\<rparr>)
      None 0 (Some [Some 7]) aoclsparse_status_invalid_size
   \<and> csrmv_both_return exact_arith \<lparr>omp_enabled = True, omp_order = [0]\<rparr> 2
      (\<lambda>alpha m n nnz v c r x beta y. Some (aoclsparse_status_success, y))
      (\<lambda>alpha m n nnz v c r x beta y. Some (aoclsparse_status_success, y)) True True
      aoclsparse_operation_transpose (1::int) 1 (- 1) 0 None None None
      (Some \<lparr>descr_type = aoclsparse_matrix_type_general, descr_base = 0\<rparr>)
      None 0 (Some [Some 7]) aoclsparse_status_not_implemented
   \<and> csrmv_both_return exact_arith \<lparr>omp_enabled = True, omp_order = [0]\<rparr> 2
      (\<lambda>alpha m n nnz v c r x beta y. Some (aoclsparse_status_success, y))
      (\<lambda>alpha m n nnz v c r x beta y. Some (aoclsparse_status_success, y)) True True
      aoclsparse_operation_transpose (1::int) 1 (- 1) 0 None None None
      (Some \<lparr>descr_type = aoclsparse_matrix_type_triangular, descr_base = 0\<rparr>)
      None 0 (Some [Some 7]) aoclsparse_status_not_implemented
   \<and> csrmv_both_return exact_arith \<lparr>omp_enabled = True, omp_order = [0]\<rparr> 2
      (\<lambda>alpha m n nnz v c r x beta y. Some (aoclsparse_status_success, y))
      (\<lambda>alpha m n nnz v c r x beta y. Some (aoclsparse_status_success, y)) True True
      aoclsparse_operation_transpose (1::int) 1 (- 1) 0 None None None
      (Some \<lparr>descr_type = aoclsparse_matrix_type_triangular, descr_base = 1\<rparr>)
      None 0 (Some [Some 7]) aoclsparse_status_not_implemented
   \<and> csrmv_both_return exact_arith \<lparr>omp_enabled = True, omp_order = [0]\<rparr> 2
      (\<lambda>alpha m n nnz v c r x beta y. Some (aoclsparse_status_success, y))
      (\<lambda>alpha m n nnz v c r x beta y. Some (aoclsparse_status_success, y)) True True
      aoclsparse_operation_transpose (1::int) 1 (- 1) 0 None None None
      None None 0 (Some [Some 7]) aoclsparse_status_invalid_pointer"
proof -
  note w = csrmv_decision_order [where fp = exact_arith
      and rt = "\<lparr>omp_enabled = True, omp_order = [0]\<rparr>" and nt = 2
      and symm = "(\<lambda>alpha m n nnz v c r x beta y. Some (aoclsparse_status_success, y))"
      and general = "(\<lambda>alpha m n nnz v c r x beta y. Some (aoclsparse_status_success, y))"
      and ?U512.0 = True and ?is512.0 = True and alpha = "1::int" and beta = 0
      and y = "Some [Some 7]"]
  show ?thesis
    using w [where descr = "Some \<lparr>descr_type = aoclsparse_matrix_type_general, descr_base = 0\<rparr>" and trans_op = "aoclsparse_operation_none" and m = "1" and n = "1" and nnz = "1" and vals = "None" and cind = "Some [0]" and rptr = "Some [0, 1]" and x = "Some [3]"]
          w [where descr = "Some \<lparr>descr_type = aoclsparse_matrix_type_general, descr_base = 0\<rparr>" and trans_op = "aoclsparse_operation_none" and m = "1" and n = "1" and nnz = "0" and vals = "None" and cind = "None" and rptr = "None" and x = "None"]
          w [where descr = "Some \<lparr>descr_type = aoclsparse_matrix_type_general, descr_base = 0\<rparr>" and trans_op = "aoclsparse_operation_none" and m = "1" and n = "- 1" and nnz = "0" and vals = "None" and cind = "None" and rptr = "None" and x = "None"]
          w [where descr = "Some \<lparr>descr_type = aoclsparse_matrix_type_general, descr_base = 0\<rparr>" and trans_op = "aoclsparse_operation_transpose" and m = "1" and n = "- 1" and nnz = "0" and vals = "None" and cind = "None" and rptr = "None" and x = "None"]
          w [where descr = "Some \<lparr>descr_type = aoclsparse_matrix_type_triangular, descr_base = 0\<rparr>" and trans_op = "aoclsparse_operation_transpose" and m = "1" and n = "- 1" and nnz = "0" and vals = "None" and cind = "None" and rptr = "None" and x = "None"]
          w [where descr = "Some \<lparr>descr_type = aoclsparse_matrix_type_triangular, descr_base = 1\<rparr>" and trans_op = "aoclsparse_operation_transpose" and m = "1" and n = "- 1" and nnz = "0" and vals = "None" and cind = "None" and rptr = "None" and x = "None"]
          w [where descr = "None" and trans_op = "aoclsparse_operation_transpose" and m = "1" and n = "- 1" and nnz = "0" and vals = "None" and cind = "None" and rptr = "None" and x = "None"]
    by (simp add: aoclsparse_index_base_zero_def)
qed




section \<open>Facts about the heap\<close>

lemma int_array_set_int_array:
  "int_array (set_int_array a xs h) p
   = (if p = Some a \<and> a < length (int_arrays h) then Some xs else int_array h p)"
  by (cases p) (auto simp: int_array_def set_int_array_def nth_list_update)

lemma val_array_set_int_array [simp]: "val_array (set_int_array a xs h) p = val_array h p"
  by (cases p) (simp_all add: val_array_def set_int_array_def)

lemma val_array_set_val_array:
  "val_array (set_val_array a xs h) p
   = (if p = Some a \<and> a < length (val_arrays h) then Some xs else val_array h p)"
  by (cases p) (auto simp: val_array_def set_val_array_def nth_list_update)

lemma int_array_set_val_array [simp]: "int_array (set_val_array a xs h) p = int_array h p"
  by (cases p) (simp_all add: int_array_def set_val_array_def)

lemma stores_set_array [simp]:
  "val_arrays (set_int_array a xs h) = val_arrays h"
  "int_arrays (set_val_array b zs h) = int_arrays h"
  "length (int_arrays (set_int_array a xs h)) = length (int_arrays h)"
  "length (val_arrays (set_val_array b zs h)) = length (val_arrays h)"
  "avail (set_int_array a xs h) = avail h"
  "avail (set_val_array b zs h) = avail h"
  by (simp_all add: set_int_array_def set_val_array_def)

lemma set_int_array_twice [simp]:
  "set_int_array a xs (set_int_array a ys h) = set_int_array a xs h"
  by (simp add: set_int_array_def)

lemma set_val_array_twice [simp]:
  "set_val_array a xs (set_val_array a ys h) = set_val_array a xs h"
  by (simp add: set_val_array_def)

lemma set_int_val_commute:
  "set_int_array a xs (set_val_array b zs h) = set_val_array b zs (set_int_array a xs h)"
  by (simp add: set_int_array_def set_val_array_def)

lemma set_int_array_same: "int_array h (Some a) = Some ys \<Longrightarrow> set_int_array a ys h = h"
proof -
  assume "int_array h (Some a) = Some ys"
  then have "int_arrays h ! a = Some ys"
    by (simp add: int_array_def split: if_splits)
  then have "(int_arrays h)[a := Some ys] = int_arrays h"
    by (metis list_update_id)
  then show ?thesis by (simp add: set_int_array_def)
qed

lemma set_val_array_same: "val_array h (Some a) = Some ys \<Longrightarrow> set_val_array a ys h = h"
proof -
  assume "val_array h (Some a) = Some ys"
  then have "val_arrays h ! a = Some ys"
    by (simp add: val_array_def split: if_splits)
  then have "(val_arrays h)[a := Some ys] = val_arrays h"
    by (metis list_update_id)
  then show ?thesis by (simp add: set_val_array_def)
qed

lemma int_array_live: "int_array h (Some a) = Some xs \<Longrightarrow> a < length (int_arrays h)"
  by (simp add: int_array_def split: if_splits)

lemma val_array_live: "val_array h (Some a) = Some xs \<Longrightarrow> a < length (val_arrays h)"
  by (simp add: val_array_def split: if_splits)

lemma store_int_live:
  "int_array h (Some a) = Some xs \<Longrightarrow> store_int (Some a) i v h = set_int_array a (xs[nat i := v]) h"
  by (simp add: store_int_def)

lemma store_val_live:
  "val_array h (Some a) = Some xs \<Longrightarrow> store_val (Some a) i v h = set_val_array a (xs[nat i := v]) h"
  by (simp add: store_val_def)

lemma deref_int_set_int_array:
  "p \<noteq> Some a \<Longrightarrow> deref_int (set_int_array a xs h) p = deref_int h p"
  by (simp add: deref_int_def int_array_set_int_array)

lemma deref_int_set_val_array [simp]: "deref_int (set_val_array a xs h) p = deref_int h p"
  by (simp add: deref_int_def)

lemma deref_val_set_val_array:
  "p \<noteq> Some a \<Longrightarrow> deref_val (set_val_array a xs h) p = deref_val h p"
  by (simp add: deref_val_def val_array_set_val_array)

lemma deref_val_set_int_array [simp]: "deref_val (set_int_array a xs h) p = deref_val h p"
  by (simp add: deref_val_def)

text \<open>
  A loop that writes cell \<open>t j\<close> of one index array and of one value array from cells
  \<open>g j\<close> of two other arrays acts on the two target arrays alone.
\<close>

lemma fold_store_both:
  assumes "int_array h (Some a) = Some ys" and "val_array h (Some b) = Some zs"
      and "srcI \<noteq> Some a" and "srcV \<noteq> Some b"
  shows "fold (\<lambda>j h. store_val (Some b) (t j) (load_val h srcV (g j))
                       (store_int (Some a) (t j) (load_int h srcI (g j) - base) h)) js h
       = set_val_array b (fold (\<lambda>j zs. zs[nat (t j) := deref_val h srcV ! nat (g j)]) js zs)
           (set_int_array a (fold (\<lambda>j ys. ys[nat (t j) := deref_int h srcI ! nat (g j) - base]) js ys) h)"
  using assms(1,2)
proof (induction js arbitrary: h ys zs)
  case Nil
  then show ?case
    by (simp add: set_int_array_same set_val_array_same)
next
  case (Cons j js)
  let ?ys = "ys[nat (t j) := deref_int h srcI ! nat (g j) - base]"
  let ?zs = "zs[nat (t j) := deref_val h srcV ! nat (g j)]"
  let ?h = "set_val_array b ?zs (set_int_array a ?ys h)"
  have la: "a < length (int_arrays h)" and lb: "b < length (val_arrays h)"
    using Cons.prems int_array_live val_array_live by blast+
  have step: "store_val (Some b) (t j) (load_val h srcV (g j))
                (store_int (Some a) (t j) (load_int h srcI (g j) - base) h) = ?h"
    using Cons.prems by (simp add: store_int_live store_val_live load_int_def load_val_def)
  have i: "int_array ?h (Some a) = Some ?ys" and v: "val_array ?h (Some b) = Some ?zs"
    using la lb by (simp_all add: int_array_set_int_array val_array_set_val_array)
  have d: "deref_int ?h srcI = deref_int h srcI" "deref_val ?h srcV = deref_val h srcV"
    using assms(3,4) by (simp_all add: deref_int_set_int_array deref_val_set_val_array)
  show ?case
    using Cons.IH [OF i v] step assms(3,4)
    by (simp add: deref_int_set_int_array deref_val_set_val_array set_int_val_commute)
qed

lemma fold_store_int:
  assumes "int_array h (Some a) = Some ys" and "srcI \<noteq> Some a"
  shows "fold (\<lambda>j h. store_int (Some a) (t j) (load_int h srcI (g j) - base) h) js h
       = set_int_array a (fold (\<lambda>j ys. ys[nat (t j) := deref_int h srcI ! nat (g j) - base]) js ys) h"
  using assms(1)
proof (induction js arbitrary: h ys)
  case Nil
  then show ?case
    by (simp add: set_int_array_same)
next
  case (Cons j js)
  let ?ys = "ys[nat (t j) := deref_int h srcI ! nat (g j) - base]"
  let ?h = "set_int_array a ?ys h"
  have la: "a < length (int_arrays h)"
    using Cons.prems int_array_live by blast
  have step: "store_int (Some a) (t j) (load_int h srcI (g j) - base) h = ?h"
    using Cons.prems by (simp add: store_int_live load_int_def)
  have i: "int_array ?h (Some a) = Some ?ys"
    using la by (simp add: int_array_set_int_array)
  have d: "deref_int ?h srcI = deref_int h srcI"
    using assms(2) by (simp add: deref_int_set_int_array)
  show ?case
    using Cons.IH [OF i] step assms(2) by (simp add: deref_int_set_int_array)
qed

text \<open>Writing the cells \<open>0, ..., k - 1\<close> of an array in turn.\<close>

lemma fold_update_prefix:
  "k \<le> length ys \<Longrightarrow>
   fold (\<lambda>i ys. ys[nat (int i) := F i]) [0..<k] ys = map F [0..<k] @ drop k ys"
proof (induction k)
  case 0 then show ?case by simp
next
  case (Suc k)
  then have "k < length ys" by simp
  then have "(map F [0..<k] @ drop k ys)[k := F k] = map F [0..<k] @ F k # drop (Suc k) ys"
    by (simp add: list_update_append Cons_nth_drop_Suc [symmetric] del: upt_Suc)
  with Suc show ?case by simp
qed

lemma fold_update_prefix_all:
  "k \<le> length xs \<Longrightarrow> length ys = k \<Longrightarrow>
   fold (\<lambda>i ys. ys[nat (int i) := f (xs ! nat (int i))]) [0..<k] ys
   = map f (take k xs)"
proof -
  assume k: "k \<le> length xs" and l: "length ys = k"
  have "map (\<lambda>i. f (xs ! nat (int i))) [0..<k] = map f (take k xs)"
    using k by (simp add: list_eq_iff_nth_eq)
  then show ?thesis
    using fold_update_prefix [of k ys "\<lambda>i. f (xs ! nat (int i))"] l by simp
qed

section \<open>aoclsparse\_copy\_csr\<close>

lemma copy_csr_success:
  fixes h :: "('a::zero) heap"
  assumes "0 < m" and "0 < nnz" and "3 \<le> avail h"
      and "int_array h (csr_row_ptr A) = Some arow" and "nat (m + 1) \<le> length arow"
      and "int_array h (csr_col_ptr A) = Some acol" and "nat nnz \<le> length acol"
      and "val_array h (csr_val A) = Some avals" and "nat nnz \<le> length avals"
  shows "aoclsparse_copy_csr m n nnz base A As h
         = (aoclsparse_status_success,
            As\<lparr>csr_row_ptr := Some (length (int_arrays h)),
               csr_col_ptr := Some (Suc (length (int_arrays h))),
               csr_val := Some (length (val_arrays h))\<rparr>,
            h\<lparr>int_arrays := int_arrays h
                  @ [Some (map (\<lambda>x. x - base) (take (nat (m + 1)) arow)),
                     Some (map (\<lambda>x. x - base) (take (nat nnz) acol))],
              val_arrays := val_arrays h @ [Some (take (nat nnz) avals)],
              avail := avail h - 3\<rparr>)"
proof -
  let ?p1 = "length (int_arrays h)" and ?p2 = "Suc (length (int_arrays h))"
  let ?p3 = "length (val_arrays h)"
  let ?h1 = "h\<lparr>int_arrays := int_arrays h @ [Some (map (fresh_ints h) [0..<nat (m + 1)])],
               avail := avail h - 1\<rparr>"
  let ?h2 = "?h1\<lparr>int_arrays := int_arrays ?h1 @ [Some (map (fresh_ints h) [0..<nat nnz])],
               avail := avail ?h1 - 1\<rparr>"
  let ?h3 = "?h2\<lparr>val_arrays := val_arrays ?h2 @ [Some (map (fresh_vals h) [0..<nat nnz])],
               avail := avail ?h2 - 1\<rparr>"
  obtain ar ac av where ptrs: "csr_row_ptr A = Some ar" "csr_col_ptr A = Some ac"
      "csr_val A = Some av"
    using assms(4,6,8) by (cases "csr_row_ptr A"; cases "csr_col_ptr A"; cases "csr_val A")
      (simp_all add: int_array_def val_array_def)
  have live: "ar < ?p1" "ac < ?p1" "av < ?p3"
    using assms(4,6,8) ptrs int_array_live val_array_live by fastforce+
  have n1: "new_array (m + 1) h = Some (?p1, ?h1)"
    using assms(1,3) by (simp add: new_array_def)
  have n2: "new_array nnz ?h1 = Some (?p2, ?h2)"
    using assms(2,3) by (simp add: new_array_def)
  have n3: "operator_new nnz ?h2 = Some (?p3, ?h3)"
    using assms(2,3) by (simp add: operator_new_def)
  have a1: "int_array ?h3 (Some ?p1) = Some (map (fresh_ints h) [0..<nat (m + 1)])"
    by (simp add: int_array_def nth_append)
  have s1: "csr_row_ptr A \<noteq> Some ?p1" "csr_col_ptr A \<noteq> Some ?p2" "csr_val A \<noteq> Some ?p3"
    using live ptrs by simp_all
  have d1: "deref_int ?h3 (csr_row_ptr A) = arow"
    using assms(4) live ptrs by (simp add: deref_int_def int_array_def nth_append)
  let ?R = "map (\<lambda>x. x - base) (take (nat (m + 1)) arow)"
  let ?h4 = "set_int_array ?p1 ?R ?h3"
  have f1: "fold (\<lambda>j ys. ys[nat (int j) := deref_int ?h3 (csr_row_ptr A) ! nat (int j) - base])
              [0..<nat (m + 1)] (map (fresh_ints h) [0..<nat (m + 1)]) = ?R"
    unfolding d1 by (rule fold_update_prefix_all [OF assms(5)]) simp
  have l1: "fold (\<lambda>i h. store_int (Some ?p1) (int i) (load_int h (csr_row_ptr A) (int i) - base) h)
              [0..<nat (m + 1)] ?h3 = ?h4"
    by (simp only: fold_store_int [OF a1 s1(1)] f1)
  have a2: "int_array ?h4 (Some ?p2) = Some (map (fresh_ints h) [0..<nat nnz])"
    by (simp add: int_array_def set_int_array_def nth_append)
  have a3: "val_array ?h4 (Some ?p3) = Some (map (fresh_vals h) [0..<nat nnz])"
    by (simp add: val_array_def set_int_array_def nth_append)
  have d2: "deref_int ?h4 (csr_col_ptr A) = acol"
    using assms(6) live ptrs
    by (simp add: deref_int_def int_array_def set_int_array_def nth_append nth_list_update)
  have d3: "deref_val ?h4 (csr_val A) = avals"
    using assms(8) live ptrs
    by (simp add: deref_val_def val_array_def set_int_array_def nth_append)
  let ?C = "map (\<lambda>x. x - base) (take (nat nnz) acol)"
  let ?h5 = "set_val_array ?p3 (take (nat nnz) avals) (set_int_array ?p2 ?C ?h4)"
  have f2: "fold (\<lambda>j ys. ys[nat (int j) := deref_int ?h4 (csr_col_ptr A) ! nat (int j) - base])
              [0..<nat nnz] (map (fresh_ints h) [0..<nat nnz]) = ?C"
    unfolding d2 by (rule fold_update_prefix_all [OF assms(7)]) simp
  have f3: "fold (\<lambda>j zs. zs[nat (int j) := deref_val ?h4 (csr_val A) ! nat (int j)])
              [0..<nat nnz] (map (fresh_vals h) [0..<nat nnz]) = take (nat nnz) avals"
    unfolding d3
    using fold_update_prefix_all [OF assms(9), of "map (fresh_vals h) [0..<nat nnz]" "\<lambda>x. x"]
    by simp
  have l2: "fold (\<lambda>i h. store_val (Some ?p3) (int i) (load_val h (csr_val A) (int i))
                (store_int (Some ?p2) (int i) (load_int h (csr_col_ptr A) (int i) - base) h))
              [0..<nat nnz] ?h4 = ?h5"
    by (simp only: fold_store_both [OF a2 a3 s1(2) s1(3)] f2 f3)
  have final: "?h5 = h\<lparr>int_arrays := int_arrays h @ [Some ?R, Some ?C],
              val_arrays := val_arrays h @ [Some (take (nat nnz) avals)],
              avail := avail h - 3\<rparr>"
    by (simp add: set_int_array_def set_val_array_def list_update_append)
  have guards: "\<not> m < 0" "\<not> (m = 0 \<or> nnz = 0)"
      "\<not> (csr_col_ptr A = None \<or> csr_row_ptr A = None \<or> csr_val A = None)"
    using assms(1,2) ptrs by simp_all
  let ?As = "As\<lparr>csr_row_ptr := Some ?p1, csr_col_ptr := Some ?p2, csr_val := Some ?p3\<rparr>"
  have sel: "csr_row_ptr ?As = Some ?p1" "csr_col_ptr ?As = Some ?p2" "csr_val ?As = Some ?p3"
    by simp_all
  show ?thesis
    unfolding aoclsparse_copy_csr_def
    by (simp only: guards if_False n1 n2 n3 option.case prod.case Let_def sel l1 l2 final)
qed

lemma all_none_drop:
  "(\<forall>x \<in> set (drop n L). x = None) \<longleftrightarrow> (\<forall>i < length L. n \<le> i \<longrightarrow> L ! i = None)"
proof
  assume a: "\<forall>x \<in> set (drop n L). x = None"
  show "\<forall>i < length L. n \<le> i \<longrightarrow> L ! i = None"
  proof (intro allI impI)
    fix i assume "i < length L" "n \<le> i"
    then have "drop n L ! (i - n) = L ! i" "i - n < length (drop n L)" by simp_all
    then show "L ! i = None" using a by (metis nth_mem)
  qed
next
  assume a: "\<forall>i < length L. n \<le> i \<longrightarrow> L ! i = None"
  show "\<forall>x \<in> set (drop n L). x = None"
  proof
    fix x assume "x \<in> set (drop n L)"
    then obtain k where "k < length (drop n L)" "drop n L ! k = x"
      by (metis in_set_conv_nth)
    then show "x = None" using a [rule_format, of "n + k"] by simp
  qed
qed

lemma nth_update_None: "L ! i = None \<Longrightarrow> L[p := None] ! i = None"
  by (cases "p < length L") (auto simp: nth_list_update list_update_beyond)

lemma copy_csr_memory_error:
  fixes h :: "('a::zero) heap"
  assumes "0 < m" and "nnz \<noteq> 0"
      and "csr_row_ptr A \<noteq> None" and "csr_col_ptr A \<noteq> None" and "csr_val A \<noteq> None"
      and "nnz < 0 \<or> avail h < 3"
  shows "fst (aoclsparse_copy_csr m n nnz base A As h) = aoclsparse_status_memory_error
       \<and> allocations_released h (snd (snd (aoclsparse_copy_csr m n nnz base A As h)))"
  using assms
  by (auto simp: aoclsparse_copy_csr_def new_array_def operator_new_def copy_csr_handler_def
        delete_array_def operator_delete_def allocations_released_def Let_def
        all_none_drop nth_update_None nth_append less_Suc_eq
      split: option.splits if_splits)

text \<open>
  C7. \<open>aoclsparse_copy_csr\<close> fails with \<open>invalid_size\<close> for a negative \<open>m\<close>, else with
  \<open>invalid_pointer\<close> when a source array is null, else returns \<open>success\<close> and does nothing
  when \<open>m = 0\<close> or \<open>nnz = 0\<close>. Otherwise it allocates three arrays; when an allocation
  fails it returns \<open>memory_error\<close> and no array allocated by the call is left; when all
  succeed the new arrays have \<open>m + 1\<close>, \<open>nnz\<close> and \<open>nnz\<close> cells, every row offset and
  column index is the source entry minus \<open>base\<close>, the values are the source values, and
  the fields of \<open>As\<close> point to the new arrays.
\<close>

theorem copy_csr_contract:
  fixes h :: "('a::zero) heap"
  shows
   "(m < 0 \<longrightarrow>
       aoclsparse_copy_csr m n nnz base A As h = (aoclsparse_status_invalid_size, As, h))
    \<and> (0 \<le> m \<and> (csr_col_ptr A = None \<or> csr_row_ptr A = None \<or> csr_val A = None) \<longrightarrow>
       aoclsparse_copy_csr m n nnz base A As h = (aoclsparse_status_invalid_pointer, As, h))
    \<and> (0 \<le> m \<and> csr_col_ptr A \<noteq> None \<and> csr_row_ptr A \<noteq> None \<and> csr_val A \<noteq> None
        \<and> (m = 0 \<or> nnz = 0) \<longrightarrow>
       aoclsparse_copy_csr m n nnz base A As h = (aoclsparse_status_success, As, h))
    \<and> (0 < m \<and> nnz \<noteq> 0 \<and> csr_col_ptr A \<noteq> None \<and> csr_row_ptr A \<noteq> None \<and> csr_val A \<noteq> None
        \<and> (nnz < 0 \<or> avail h < 3) \<longrightarrow>
       fst (aoclsparse_copy_csr m n nnz base A As h) = aoclsparse_status_memory_error
       \<and> allocations_released h (snd (snd (aoclsparse_copy_csr m n nnz base A As h))))
    \<and> (0 < m \<and> 0 < nnz \<and> 3 \<le> avail h
        \<and> int_array h (csr_row_ptr A) = Some arow \<and> nat (m + 1) \<le> length arow
        \<and> int_array h (csr_col_ptr A) = Some acol \<and> nat nnz \<le> length acol
        \<and> val_array h (csr_val A) = Some avals \<and> nat nnz \<le> length avals \<longrightarrow>
       aoclsparse_copy_csr m n nnz base A As h
       = (aoclsparse_status_success,
          As\<lparr>csr_row_ptr := Some (length (int_arrays h)),
             csr_col_ptr := Some (Suc (length (int_arrays h))),
             csr_val := Some (length (val_arrays h))\<rparr>,
          h\<lparr>int_arrays := int_arrays h
                @ [Some (map (\<lambda>x. x - base) (take (nat (m + 1)) arow)),
                   Some (map (\<lambda>x. x - base) (take (nat nnz) acol))],
            val_arrays := val_arrays h @ [Some (take (nat nnz) avals)],
            avail := avail h - 3\<rparr>))"
proof (intro conjI impI)
  show "m < 0 \<Longrightarrow>
      aoclsparse_copy_csr m n nnz base A As h = (aoclsparse_status_invalid_size, As, h)"
    by (simp add: aoclsparse_copy_csr_def)
  show "0 \<le> m \<and> (csr_col_ptr A = None \<or> csr_row_ptr A = None \<or> csr_val A = None) \<Longrightarrow>
      aoclsparse_copy_csr m n nnz base A As h = (aoclsparse_status_invalid_pointer, As, h)"
    by (simp add: aoclsparse_copy_csr_def)
  show "0 \<le> m \<and> csr_col_ptr A \<noteq> None \<and> csr_row_ptr A \<noteq> None \<and> csr_val A \<noteq> None
        \<and> (m = 0 \<or> nnz = 0) \<Longrightarrow>
      aoclsparse_copy_csr m n nnz base A As h = (aoclsparse_status_success, As, h)"
    by (auto simp: aoclsparse_copy_csr_def)
  assume f: "0 < m \<and> nnz \<noteq> 0 \<and> csr_col_ptr A \<noteq> None \<and> csr_row_ptr A \<noteq> None
      \<and> csr_val A \<noteq> None \<and> (nnz < 0 \<or> avail h < 3)"
  show "fst (aoclsparse_copy_csr m n nnz base A As h) = aoclsparse_status_memory_error"
    using f copy_csr_memory_error [of m nnz A h n base As] by simp
  show "allocations_released h (snd (snd (aoclsparse_copy_csr m n nnz base A As h)))"
    using f copy_csr_memory_error [of m nnz A h n base As] by simp
next
  assume s: "0 < m \<and> 0 < nnz \<and> 3 \<le> avail h
        \<and> int_array h (csr_row_ptr A) = Some arow \<and> nat (m + 1) \<le> length arow
        \<and> int_array h (csr_col_ptr A) = Some acol \<and> nat nnz \<le> length acol
        \<and> val_array h (csr_val A) = Some avals \<and> nat nnz \<le> length avals"
  then show "aoclsparse_copy_csr m n nnz base A As h
       = (aoclsparse_status_success,
          As\<lparr>csr_row_ptr := Some (length (int_arrays h)),
             csr_col_ptr := Some (Suc (length (int_arrays h))),
             csr_val := Some (length (val_arrays h))\<rparr>,
          h\<lparr>int_arrays := int_arrays h
                @ [Some (map (\<lambda>x. x - base) (take (nat (m + 1)) arow)),
                   Some (map (\<lambda>x. x - base) (take (nat nnz) acol))],
            val_arrays := val_arrays h @ [Some (take (nat nnz) avals)],
            avail := avail h - 3\<rparr>)"
    using copy_csr_success [of m nnz h A arow acol avals n base As] by blast
qed

theorem copy_csr_contract_witness:
  "aoclsparse_copy_csr 2 2 3 1
      \<lparr>csr_row_ptr = Some 0, csr_col_ptr = Some 1, csr_val = Some 0\<rparr>
      \<lparr>csr_row_ptr = None, csr_col_ptr = None, csr_val = None\<rparr>
      \<lparr>int_arrays = [Some [1, 3, 4], Some [2, 1, 2]], val_arrays = [Some [5, 6, 7 :: int]],
       avail = 3,
       fresh_ints = (\<lambda>j. 99), fresh_vals = (\<lambda>j. 77)\<rparr>
   = (aoclsparse_status_success,
      \<lparr>csr_row_ptr = Some 2, csr_col_ptr = Some 3, csr_val = Some 1\<rparr>,
      \<lparr>int_arrays = [Some [1, 3, 4], Some [2, 1, 2], Some [0, 2, 3], Some [1, 0, 1]],
       val_arrays = [Some [5, 6, 7], Some [5, 6, 7]], avail = 0,
       fresh_ints = (\<lambda>j. 99), fresh_vals = (\<lambda>j. 77)\<rparr>)
   \<and> fst (aoclsparse_copy_csr 2 2 3 1
      \<lparr>csr_row_ptr = Some 0, csr_col_ptr = Some 1, csr_val = Some 0\<rparr>
      \<lparr>csr_row_ptr = None, csr_col_ptr = None, csr_val = None\<rparr>
      \<lparr>int_arrays = [Some [1, 3, 4], Some [2, 1, 2]], val_arrays = [Some [5, 6, 7 :: int]],
       avail = 2,
       fresh_ints = (\<lambda>j. 99), fresh_vals = (\<lambda>j. 77)\<rparr>) = aoclsparse_status_memory_error
   \<and> aoclsparse_copy_csr 0 2 3 1
      \<lparr>csr_row_ptr = Some 0, csr_col_ptr = Some 1, csr_val = Some 0\<rparr>
      \<lparr>csr_row_ptr = None, csr_col_ptr = None, csr_val = None\<rparr>
      \<lparr>int_arrays = [Some [1, 3, 4], Some [2, 1, 2]], val_arrays = [Some [5, 6, 7 :: int]],
       avail = 3,
       fresh_ints = (\<lambda>j. 99), fresh_vals = (\<lambda>j. 77)\<rparr>
     = (aoclsparse_status_success, \<lparr>csr_row_ptr = None, csr_col_ptr = None, csr_val = None\<rparr>,
        \<lparr>int_arrays = [Some [1, 3, 4], Some [2, 1, 2]], val_arrays = [Some [5, 6, 7 :: int]],
         avail = 3,
       fresh_ints = (\<lambda>j. 99), fresh_vals = (\<lambda>j. 77)\<rparr>)
   \<and> aoclsparse_copy_csr 2 2 3 1
      \<lparr>csr_row_ptr = Some 0, csr_col_ptr = Some 1, csr_val = None\<rparr>
      \<lparr>csr_row_ptr = None, csr_col_ptr = None, csr_val = None\<rparr>
      \<lparr>int_arrays = [Some [1, 3, 4], Some [2, 1, 2]], val_arrays = [Some [5, 6, 7 :: int]],
       avail = 3,
       fresh_ints = (\<lambda>j. 99), fresh_vals = (\<lambda>j. 77)\<rparr>
     = (aoclsparse_status_invalid_pointer,
        \<lparr>csr_row_ptr = None, csr_col_ptr = None, csr_val = None\<rparr>,
        \<lparr>int_arrays = [Some [1, 3, 4], Some [2, 1, 2]], val_arrays = [Some [5, 6, 7 :: int]],
         avail = 3,
       fresh_ints = (\<lambda>j. 99), fresh_vals = (\<lambda>j. 77)\<rparr>)
   \<and> aoclsparse_copy_csr (- 1) 2 3 1
      \<lparr>csr_row_ptr = Some 0, csr_col_ptr = Some 1, csr_val = None\<rparr>
      \<lparr>csr_row_ptr = None, csr_col_ptr = None, csr_val = None\<rparr>
      \<lparr>int_arrays = [Some [1, 3, 4], Some [2, 1, 2]], val_arrays = [Some [5, 6, 7 :: int]],
       avail = 3,
       fresh_ints = (\<lambda>j. 99), fresh_vals = (\<lambda>j. 77)\<rparr>
     = (aoclsparse_status_invalid_size,
        \<lparr>csr_row_ptr = None, csr_col_ptr = None, csr_val = None\<rparr>,
        \<lparr>int_arrays = [Some [1, 3, 4], Some [2, 1, 2]], val_arrays = [Some [5, 6, 7 :: int]],
         avail = 3,
       fresh_ints = (\<lambda>j. 99), fresh_vals = (\<lambda>j. 77)\<rparr>)"
proof -
  let ?A = "\<lparr>csr_row_ptr = Some 0, csr_col_ptr = Some 1, csr_val = Some 0\<rparr>"
  let ?B = "\<lparr>csr_row_ptr = Some 0, csr_col_ptr = Some 1, csr_val = None\<rparr>"
  let ?As = "\<lparr>csr_row_ptr = None, csr_col_ptr = None, csr_val = None\<rparr>"
  let ?h = "\<lambda>k. \<lparr>int_arrays = [Some [1, 3, 4], Some [2, 1, 2]],
                  val_arrays = [Some [5, 6, 7 :: int]], avail = k,
                  fresh_ints = (\<lambda>j. 99), fresh_vals = (\<lambda>j. 77)\<rparr>"
  show ?thesis
    using copy_csr_contract [of 2 2 3 1 ?A ?As "?h 3" "[1, 3, 4]" "[2, 1, 2]" "[5, 6, 7]"]
          copy_csr_contract [of 2 2 3 1 ?A ?As "?h 2" "[1, 3, 4]" "[2, 1, 2]" "[5, 6, 7]"]
          copy_csr_contract [of 0 2 3 1 ?A ?As "?h 3" "[1, 3, 4]" "[2, 1, 2]" "[5, 6, 7]"]
          copy_csr_contract [of 2 2 3 1 ?B ?As "?h 3" "[1, 3, 4]" "[2, 1, 2]" "[5, 6, 7]"]
          copy_csr_contract [of "- 1" 2 3 1 ?B ?As "?h 3" "[1, 3, 4]" "[2, 1, 2]" "[5, 6, 7]"]
    by (simp add: int_array_def val_array_def)
qed

text \<open>
  C10. The two entry points order the quick return and the null check differently:
  \<open>aoclsparse_sort_csr\<close> returns \<open>success\<close> for \<open>m = 0\<close> or \<open>nnz = 0\<close> whatever the
  pointers are, \<open>aoclsparse_copy_csr\<close> returns \<open>invalid_pointer\<close> for a null source array
  before it looks for an empty matrix (its size check on \<open>m\<close> comes first of all).
\<close>

theorem empty_matrix_check_order:
  fixes h :: "('a::zero) heap"
  shows
   "((m = 0 \<or> nnz = 0) \<longrightarrow>
       aoclsparse_sort_csr m n nnz base A As h = Inr (aoclsparse_status_success, h))
    \<and> (0 \<le> m \<and> (csr_col_ptr A = None \<or> csr_row_ptr A = None \<or> csr_val A = None) \<longrightarrow>
       aoclsparse_copy_csr m n nnz base A As h = (aoclsparse_status_invalid_pointer, As, h))"
  by (simp add: aoclsparse_sort_csr_def aoclsparse_copy_csr_def)

theorem empty_matrix_check_order_witness:
  "aoclsparse_sort_csr 2 2 0 0 \<lparr>csr_row_ptr = None, csr_col_ptr = None, csr_val = None\<rparr>
      \<lparr>csr_row_ptr = None, csr_col_ptr = None, csr_val = None\<rparr>
      \<lparr>int_arrays = [], val_arrays = ([] :: int list option list), avail = 0,
       fresh_ints = (\<lambda>j. 99), fresh_vals = (\<lambda>j. 77)\<rparr>
   = Inr (aoclsparse_status_success,
          \<lparr>int_arrays = [], val_arrays = ([] :: int list option list), avail = 0,
       fresh_ints = (\<lambda>j. 99), fresh_vals = (\<lambda>j. 77)\<rparr>)
   \<and> aoclsparse_copy_csr 2 2 0 0 \<lparr>csr_row_ptr = None, csr_col_ptr = None, csr_val = None\<rparr>
      \<lparr>csr_row_ptr = None, csr_col_ptr = None, csr_val = None\<rparr>
      \<lparr>int_arrays = [], val_arrays = ([] :: int list option list), avail = 0,
       fresh_ints = (\<lambda>j. 99), fresh_vals = (\<lambda>j. 77)\<rparr>
   = (aoclsparse_status_invalid_pointer,
      \<lparr>csr_row_ptr = None, csr_col_ptr = None, csr_val = None\<rparr>,
      \<lparr>int_arrays = [], val_arrays = ([] :: int list option list), avail = 0,
       fresh_ints = (\<lambda>j. 99), fresh_vals = (\<lambda>j. 77)\<rparr>)"
  using empty_matrix_check_order [of 2 0 2 0
          "\<lparr>csr_row_ptr = None, csr_col_ptr = None, csr_val = None\<rparr>"
          "\<lparr>csr_row_ptr = None, csr_col_ptr = None, csr_val = None\<rparr>"
          "\<lparr>int_arrays = [], val_arrays = ([] :: int list option list), avail = 0,
       fresh_ints = (\<lambda>j. 99), fresh_vals = (\<lambda>j. 77)\<rparr>"]
  by simp

section \<open>aoclsparse\_sp2m\<close>

text \<open>
  C9. \<open>aoclsparse_sp2m\<close> returns \<open>invalid_pointer\<close> when \<open>A\<close>, \<open>B\<close> or the output slot is
  null; otherwise \<open>wrong_type\<close> when the value types of \<open>A\<close> and \<open>B\<close> differ; otherwise
  it is the call of the kernel instantiated for their value type, with the eight arguments
  as they came.
\<close>

theorem sp2m_type_dispatch:
  "(A = None \<or> B = None \<or> C = None \<longrightarrow>
      aoclsparse_sp2m csr2m_t opA descrA A opB descrB B request C
      = (aoclsparse_status_invalid_pointer, C))
   \<and> (\<forall>a b c. A = Some a \<and> B = Some b \<and> C = Some c \<longrightarrow>
        (val_type a \<noteq> val_type b \<longrightarrow>
           aoclsparse_sp2m csr2m_t opA descrA A opB descrB B request C
           = (aoclsparse_status_wrong_type, C))
      \<and> (val_type a = val_type b \<longrightarrow>
           aoclsparse_sp2m csr2m_t opA descrA A opB descrB B request C
           = map_prod id Some
               (csr2m_t (template_of (val_type a)) opA descrA a opB descrB b request c)))"
proof (intro conjI allI impI)
  assume "A = None \<or> B = None \<or> C = None"
  then show "aoclsparse_sp2m csr2m_t opA descrA A opB descrB B request C
      = (aoclsparse_status_invalid_pointer, C)"
    by (auto simp: aoclsparse_sp2m_def split: option.splits)
next
  fix a b c
  assume "A = Some a \<and> B = Some b \<and> C = Some c" and "val_type a \<noteq> val_type b"
  then show "aoclsparse_sp2m csr2m_t opA descrA A opB descrB B request C
           = (aoclsparse_status_wrong_type, C)"
    by (auto simp: aoclsparse_sp2m_def)
next
  fix a b c
  assume "A = Some a \<and> B = Some b \<and> C = Some c" and "val_type a = val_type b"
  then show "aoclsparse_sp2m csr2m_t opA descrA A opB descrB B request C
           = map_prod id Some
               (csr2m_t (template_of (val_type a)) opA descrA a opB descrB b request c)"
    by (cases "val_type b") (simp_all add: aoclsparse_sp2m_def template_of_def)
qed

theorem sp2m_type_dispatch_witness:
  "aoclsparse_sp2m (\<lambda>T opA dA a opB dB b req c. (aoclsparse_status_success, T))
      aoclsparse_operation_none () (Some (handle_of_type aoclsparse_dmat))
      aoclsparse_operation_none () (Some (handle_of_type aoclsparse_dmat)) () (Some T_float)
   = (aoclsparse_status_success, Some T_double)
   \<and> aoclsparse_sp2m (\<lambda>T opA dA a opB dB b req c. (aoclsparse_status_success, T))
      aoclsparse_operation_none () (Some (handle_of_type aoclsparse_dmat))
      aoclsparse_operation_none () (Some (handle_of_type aoclsparse_smat)) () (Some T_float)
   = (aoclsparse_status_wrong_type, Some T_float)
   \<and> aoclsparse_sp2m (\<lambda>T opA dA a opB dB b req c. (aoclsparse_status_success, T))
      aoclsparse_operation_none () None
      aoclsparse_operation_none () (Some (handle_of_type aoclsparse_smat)) () (Some T_float)
   = (aoclsparse_status_invalid_pointer, Some T_float)"
  using sp2m_type_dispatch [of "Some (handle_of_type aoclsparse_dmat)"
          "Some (handle_of_type aoclsparse_dmat)" "Some T_float"
          "\<lambda>T opA dA a opB dB b req c. (aoclsparse_status_success, T)"
          aoclsparse_operation_none "()" aoclsparse_operation_none "()" "()"]
        sp2m_type_dispatch [of "Some (handle_of_type aoclsparse_dmat)"
          "Some (handle_of_type aoclsparse_smat)" "Some T_float"
          "\<lambda>T opA dA a opB dB b req c. (aoclsparse_status_success, T)"
          aoclsparse_operation_none "()" aoclsparse_operation_none "()" "()"]
        sp2m_type_dispatch [of None
          "Some (handle_of_type aoclsparse_smat)" "Some T_float"
          "\<lambda>T opA dA a opB dB b req c. (aoclsparse_status_success, T)"
          aoclsparse_operation_none "()" aoclsparse_operation_none "()" "()"]
  by (simp add: handle_of_type_def template_of_def)

section \<open>aoclsparse\_csr\_fill\_diag: the scan for missing diagonals\<close>

lemma diag_scan_eq:
  "0 \<le> idx \<Longrightarrow>
   diag_scan col base i idx idxend
   = (let cs = map (\<lambda>k. col ! k - base) [nat idx ..< nat idxend];
          t = length (takeWhile (\<lambda>c. c < i) cs)
      in (t < length cs \<and> cs ! t = i, idx + int t))"
proof (induction col base i idx idxend rule: diag_scan.induct)
  case (1 col base i idx idxend)
  show ?case
  proof (cases "idx < idxend")
    case False
    then have "[nat idx ..< nat idxend] = []" by simp
    then show ?thesis using False by (simp add: diag_scan.simps [of _ _ _ idx])
  next
    case True
    then have up: "[nat idx ..< nat idxend] = nat idx # [nat (idx + 1) ..< nat idxend]"
      using "1.prems" by (simp add: upt_conv_Cons nat_add_distrib)
    let ?j = "col ! nat idx - base"
    show ?thesis
    proof (cases "i = ?j")
      case True
      then show ?thesis using \<open>idx < idxend\<close> up
        by (simp add: diag_scan.simps [of _ _ _ idx] Let_def)
    next
      case ne: False
      show ?thesis
      proof (cases "?j > i")
        case True
        then show ?thesis using \<open>idx < idxend\<close> up ne
          by (simp add: diag_scan.simps [of _ _ _ idx] Let_def)
      next
        case False
        then have lt: "?j < i" using ne by simp
        have "0 \<le> idx + 1" using "1.prems" by simp
        from "1.IH" [OF \<open>idx < idxend\<close> refl ne False this]
        show ?thesis using \<open>idx < idxend\<close> up ne lt
          by (simp add: diag_scan.simps [of _ _ _ idx] Let_def)
      qed
    qed
  qed
qed

lemma sorted_first_not_less:
  assumes "sorted cs" and "i \<in> set cs"
  shows "length (takeWhile (\<lambda>c. c < i) cs) < length cs
         \<and> cs ! length (takeWhile (\<lambda>c. c < (i::int)) cs) = i"
proof -
  let ?t = "length (takeWhile (\<lambda>c. c < i) cs)"
  obtain k where k: "k < length cs" "cs ! k = i"
    using assms(2) by (metis in_set_conv_nth)
  have tk: "?t \<le> k"
  proof (rule ccontr)
    assume "\<not> ?t \<le> k"
    then have "k < ?t" by simp
    then have "cs ! k < i" using nth_mem [of k "takeWhile (\<lambda>c. c < i) cs"]
      by (metis (mono_tags, lifting) set_takeWhileD takeWhile_nth)
    then show False using k by simp
  qed
  then have lt: "?t < length cs" using k by simp
  then have "\<not> cs ! ?t < i" by (rule nth_length_takeWhile)
  moreover have "cs ! ?t \<le> cs ! k"
    using assms(1) tk k(1) by (simp add: sorted_nth_mono)
  ultimately show ?thesis using lt k by simp
qed

lemma check_rows_fold:
  "k \<le> m' \<Longrightarrow>
   fold (check_row row col base n) [0..<k] (0, replicate m' (- 1))
   = (scan_count row col base n k,
      map (\<lambda>i. if i < k \<and> scan_missing row col base n i
                then scan_pos row col base i + scan_count row col base n i else - 1) [0..<m'])"
proof (induction k)
  case 0
  then show ?case by (simp add: scan_count_def list_eq_iff_nth_eq)
next
  case (Suc k)
  let ?md = "\<lambda>k. map (\<lambda>i. if i < k \<and> scan_missing row col base n i
                then scan_pos row col base i + scan_count row col base n i else - 1) [0..<m']"
  have kl: "k < m'" using Suc.prems by simp
  have upd: "(?md k)[k := scan_pos row col base k + scan_count row col base n k] = ?md (Suc k)"
    if "scan_missing row col base n k"
    using that kl by (auto simp: list_eq_iff_nth_eq nth_list_update less_Suc_eq)
  have same: "?md k = ?md (Suc k)" if "\<not> scan_missing row col base n k"
    using that by (auto simp: list_eq_iff_nth_eq less_Suc_eq)
  have cnt: "scan_count row col base n (Suc k)
      = (if scan_missing row col base n k then scan_count row col base n k + 1
         else scan_count row col base n k)"
    by (simp add: scan_count_def)
  have step: "check_row row col base n k (scan_count row col base n k, ?md k)
      = (scan_count row col base n (Suc k), ?md (Suc k))"
  proof (cases "scan_missing row col base n k")
    case True
    then show ?thesis
      using upd [OF True] cnt
      by (simp add: check_row_def scan_missing_def scan_pos_def Let_def split_beta)
  next
    case False
    then show ?thesis
      using same [OF False] cnt
      by (auto simp: check_row_def scan_missing_def scan_pos_def Let_def split_beta)
  qed
  show ?case
    using Suc.IH kl step by simp
qed

text \<open>A sorted row that holds its diagonal is not counted as missing it.\<close>

lemma scan_finds_diag:
  assumes "base \<le> row ! i" and "sorted (map fst (csr_row row col vals base i))"
      and "int i \<in> set (map fst (csr_row row col vals base i))"
  shows "\<not> scan_missing row col base n i"
proof -
  let ?cs = "map (\<lambda>k. col ! k - base) [nat (row ! i - base) ..< nat (row ! (i + 1) - base)]"
  have cs: "map fst (csr_row row col vals base i) = ?cs"
    by (simp add: csr_row_def o_def)
  have "0 \<le> row ! i - base" using assms(1) by simp
  then have e: "fst (diag_scan col base (int i) (row ! i - base) (row ! (i + 1) - base))
      = (length (takeWhile (\<lambda>c. c < int i) ?cs) < length ?cs
         \<and> ?cs ! length (takeWhile (\<lambda>c. c < int i) ?cs) = int i)"
    by (simp only: diag_scan_eq Let_def fst_conv)
  have "fst (diag_scan col base (int i) (row ! i - base) (row ! (i + 1) - base))"
    unfolding e using sorted_first_not_less [of ?cs "int i"] assms(2,3) unfolding cs by blast
  then show ?thesis
    by (simp add: scan_missing_def)
qed

lemma avail_update_arrays [simp]:
  "int_array (h\<lparr>avail := k\<rparr>) p = int_array h p"
  "val_array (h\<lparr>avail := k\<rparr>) q = val_array h q"
  "deref_int (h\<lparr>avail := k\<rparr>) p = deref_int h p"
  "deref_val (h\<lparr>avail := k\<rparr>) q = deref_val h q"
  by (cases p; cases q; simp add: deref_int_def deref_val_def int_array_def val_array_def)+

lemma vector_alloc_Inr:
  assumes "vector_alloc m h = Inr h0"
  shows "0 \<le> m" and "int_arrays h0 = int_arrays h" and "val_arrays h0 = val_arrays h"
    and "fresh_ints h0 = fresh_ints h" and "fresh_vals h0 = fresh_vals h"
    and "int_array h0 p = int_array h p" and "val_array h0 q = val_array h q"
    and "deref_int h0 p = deref_int h p" and "deref_val h0 q = deref_val h q"
    and "h0 = (if m = 0 then h else h\<lparr>avail := avail h - 1\<rparr>)"
proof -
  have e: "h0 = (if m = 0 then h else h\<lparr>avail := avail h - 1\<rparr>)" and m: "0 \<le> m"
    using assms by (auto simp: vector_alloc_def split: if_splits)
  show "0 \<le> m" by (rule m)
  show "h0 = (if m = 0 then h else h\<lparr>avail := avail h - 1\<rparr>)" by (rule e)
  show "int_arrays h0 = int_arrays h" "val_arrays h0 = val_arrays h"
       "fresh_ints h0 = fresh_ints h" "fresh_vals h0 = fresh_vals h"
       "int_array h0 p = int_array h p" "val_array h0 q = val_array h q"
       "deref_int h0 p = deref_int h p" "deref_val h0 q = deref_val h q"
    by (simp_all add: e)
qed

lemma fill_diag_no_missing:
  fixes h :: "('a::zero) heap"
  assumes "vector_alloc m h = Inr h0"
      and "csr_row_ptr A \<noteq> None" and "csr_col_ptr A \<noteq> None" and "csr_val A \<noteq> None"
      and "\<forall>i < nat m. \<not> scan_missing (deref_int h (csr_row_ptr A)) (deref_int h (csr_col_ptr A)) base n i"
  shows "aoclsparse_csr_fill_diag m n nnz base A h = Inr (aoclsparse_status_success, A, h0)"
proof -
  let ?row = "deref_int h (csr_row_ptr A)" and ?col = "deref_int h (csr_col_ptr A)"
  note v = vector_alloc_Inr [OF assms(1)]
  have "filter (scan_missing ?row ?col base n) [0..<nat m] = []"
    using assms(5) by (simp add: filter_empty_conv)
  then have c: "scan_count ?row ?col base n (nat m) = 0"
    by (simp add: scan_count_def)
  have f: "fst (fold (check_row ?row ?col base n) [0..<nat m] (0, replicate (nat m) (- 1))) = 0"
    using check_rows_fold [of "nat m" "nat m" ?row ?col base n] c by simp
  show ?thesis
    using assms(2,3,4) f
    by (simp add: aoclsparse_csr_fill_diag_def assms(1) v(8) Let_def split_beta)
qed

text \<open>
  C8, as the code has it. On a matrix whose rows are sorted by column index, as the
  function assumes, and in which every row \<open>i < n\<close> holds its diagonal entry,
  \<open>aoclsparse_csr_fill_diag\<close> changes neither the three pointers nor any array. It returns
  \<open>success\<close>, except that it returns \<open>memory_error\<close> when its scratch vector of \<open>m > 0\<close>
  entries cannot be allocated.
\<close>

theorem fill_diag_full_diagonal_noop:
  fixes h :: "('a::zero) heap"
  assumes "0 \<le> m"
      and "int_array h (csr_row_ptr A) = Some row"
      and "int_array h (csr_col_ptr A) = Some col"
      and "val_array h (csr_val A) = Some vals"
      and "\<forall>i < nat m. base \<le> row ! i
             \<and> sorted (map fst (csr_row row col vals base i))
             \<and> (int i < n \<longrightarrow> int i \<in> set (map fst (csr_row row col vals base i)))"
  shows "aoclsparse_csr_fill_diag m n nnz base A h
         = (if m = 0 then Inr (aoclsparse_status_success, A, h)
            else if avail h = 0 then Inr (aoclsparse_status_memory_error, A, h)
            else Inr (aoclsparse_status_success, A, h\<lparr>avail := avail h - 1\<rparr>))"
proof (cases "m \<noteq> 0 \<and> avail h = 0")
  case True
  then show ?thesis
    using assms(1) by (simp add: aoclsparse_csr_fill_diag_def vector_alloc_def)
next
  case False
  have v: "vector_alloc m h = Inr (if m = 0 then h else h\<lparr>avail := avail h - 1\<rparr>)"
    using False assms(1) by (auto simp: vector_alloc_def)
  have p: "csr_row_ptr A \<noteq> None" "csr_col_ptr A \<noteq> None" "csr_val A \<noteq> None"
    using assms(2,3,4) by (auto simp: int_array_def val_array_def split: option.splits)
  have d: "deref_int h (csr_row_ptr A) = row" "deref_int h (csr_col_ptr A) = col"
    using assms(2,3) by (simp_all add: deref_int_def)
  have "\<forall>i < nat m. \<not> scan_missing row col base n i"
  proof (intro allI impI)
    fix i assume i: "i < nat m"
    show "\<not> scan_missing row col base n i"
    proof (cases "int i < n")
      case True
      then show ?thesis using assms(5) i scan_finds_diag [of base row i col vals n] by blast
    next
      case False
      then show ?thesis by (simp add: scan_missing_def)
    qed
  qed
  then show ?thesis
    using False fill_diag_no_missing [OF v p, of base n nnz] by (auto simp: d)
qed

theorem fill_diag_full_diagonal_noop_witness:
  "aoclsparse_csr_fill_diag 2 2 3 0
      \<lparr>csr_row_ptr = Some 0, csr_col_ptr = Some 1, csr_val = Some 0\<rparr>
      \<lparr>int_arrays = [Some [0, 2, 3], Some [0, 1, 1]], val_arrays = [Some [5, 6, 7 :: int]],
       avail = 4, fresh_ints = (\<lambda>j. 99), fresh_vals = (\<lambda>j. 77)\<rparr>
   = Inr (aoclsparse_status_success,
          \<lparr>csr_row_ptr = Some 0, csr_col_ptr = Some 1, csr_val = Some 0\<rparr>,
          \<lparr>int_arrays = [Some [0, 2, 3], Some [0, 1, 1]], val_arrays = [Some [5, 6, 7 :: int]],
           avail = 3, fresh_ints = (\<lambda>j. 99), fresh_vals = (\<lambda>j. 77)\<rparr>)
   \<and> aoclsparse_csr_fill_diag 0 2 0 0
      \<lparr>csr_row_ptr = Some 0, csr_col_ptr = Some 1, csr_val = Some 0\<rparr>
      \<lparr>int_arrays = [Some [0], Some []], val_arrays = [Some ([] :: int list)],
       avail = 0, fresh_ints = (\<lambda>j. 99), fresh_vals = (\<lambda>j. 77)\<rparr>
   = Inr (aoclsparse_status_success,
          \<lparr>csr_row_ptr = Some 0, csr_col_ptr = Some 1, csr_val = Some 0\<rparr>,
          \<lparr>int_arrays = [Some [0], Some []], val_arrays = [Some ([] :: int list)],
           avail = 0, fresh_ints = (\<lambda>j. 99), fresh_vals = (\<lambda>j. 77)\<rparr>)"
proof -
  have rows: "\<forall>i < nat 2. (0::int) \<le> [0, 2, 3] ! i
             \<and> sorted (map fst (csr_row [0, 2, 3] [0, 1, 1] [5, 6, 7 :: int] 0 i))
             \<and> (int i < 2 \<longrightarrow> int i \<in> set (map fst (csr_row [0, 2, 3] [0, 1, 1] [5, 6, 7 :: int] 0 i)))"
  proof -
    have r: "csr_row [0, 2, 3] [0, 1, 1] [5, 6, 7 :: int] 0 0 = [(0, 5), (1, 6)]"
            "csr_row [0, 2, 3] [0, 1, 1] [5, 6, 7 :: int] 0 (Suc 0) = [(1, 7)]"
      by code_simp+
    show ?thesis
      by (auto simp: less_Suc_eq numeral_2_eq_2 r)
  qed
  have rows0: "\<forall>i < nat 0. (0::int) \<le> [0] ! i
             \<and> sorted (map fst (csr_row [0] [] ([] :: int list) 0 i))
             \<and> (int i < 2 \<longrightarrow> int i \<in> set (map fst (csr_row [0] [] ([] :: int list) 0 i)))"
    by simp
  show ?thesis
    using fill_diag_full_diagonal_noop [of 2
            "\<lparr>int_arrays = [Some [0, 2, 3], Some [0, 1, 1]],
              val_arrays = [Some [5, 6, 7 :: int]], avail = 4,
              fresh_ints = (\<lambda>j. 99), fresh_vals = (\<lambda>j. 77)\<rparr>"
            "\<lparr>csr_row_ptr = Some 0, csr_col_ptr = Some 1, csr_val = Some 0\<rparr>"
            "[0, 2, 3]" "[0, 1, 1]" "[5, 6, 7]" 0 2 3, OF _ _ _ _ rows]
          fill_diag_full_diagonal_noop [of 0
            "\<lparr>int_arrays = [Some [0], Some []],
              val_arrays = [Some ([] :: int list)], avail = 0,
              fresh_ints = (\<lambda>j. 99), fresh_vals = (\<lambda>j. 77)\<rparr>"
            "\<lparr>csr_row_ptr = Some 0, csr_col_ptr = Some 1, csr_val = Some 0\<rparr>"
            "[0]" "[]" "[]" 0 2 0, OF _ _ _ _ rows0]
    by (simp add: int_array_def val_array_def)
qed

text \<open>
  The claim as it was stated promises \<open>success\<close>. The matrix below has sorted rows, row 0
  with the columns 0 and 1 and row 1 with the column 1, so every row has its diagonal
  entry; when the scratch vector of two entries cannot be allocated, the call returns
  \<open>memory_error\<close>.
\<close>

theorem fill_diag_allocation_counterexample:
  "csr_row [0, 2, 3] [0, 1, 1] [5, 6, 7 :: int] 0 0 = [(0, 5), (1, 6)]
   \<and> csr_row [0, 2, 3] [0, 1, 1] [5, 6, 7 :: int] 0 1 = [(1, 7)]
   \<and> aoclsparse_csr_fill_diag 2 2 3 0
      \<lparr>csr_row_ptr = Some 0, csr_col_ptr = Some 1, csr_val = Some 0\<rparr>
      \<lparr>int_arrays = [Some [0, 2, 3], Some [0, 1, 1]], val_arrays = [Some [5, 6, 7 :: int]],
       avail = 0, fresh_ints = (\<lambda>j. 99), fresh_vals = (\<lambda>j. 77)\<rparr>
   = Inr (aoclsparse_status_memory_error,
          \<lparr>csr_row_ptr = Some 0, csr_col_ptr = Some 1, csr_val = Some 0\<rparr>,
          \<lparr>int_arrays = [Some [0, 2, 3], Some [0, 1, 1]], val_arrays = [Some [5, 6, 7 :: int]],
           avail = 0, fresh_ints = (\<lambda>j. 99), fresh_vals = (\<lambda>j. 77)\<rparr>)"
proof (intro conjI)
  show "csr_row [0, 2, 3] [0, 1, 1] [5, 6, 7 :: int] 0 0 = [(0, 5), (1, 6)]"
    by code_simp
  show "csr_row [0, 2, 3] [0, 1, 1] [5, 6, 7 :: int] 0 1 = [(1, 7)]"
    by code_simp
  show "aoclsparse_csr_fill_diag 2 2 3 0
      \<lparr>csr_row_ptr = Some 0, csr_col_ptr = Some 1, csr_val = Some 0\<rparr>
      \<lparr>int_arrays = [Some [0, 2, 3], Some [0, 1, 1]], val_arrays = [Some [5, 6, 7 :: int]],
       avail = 0, fresh_ints = (\<lambda>j. 99), fresh_vals = (\<lambda>j. 77)\<rparr>
   = Inr (aoclsparse_status_memory_error,
          \<lparr>csr_row_ptr = Some 0, csr_col_ptr = Some 1, csr_val = Some 0\<rparr>,
          \<lparr>int_arrays = [Some [0, 2, 3], Some [0, 1, 1]], val_arrays = [Some [5, 6, 7 :: int]],
           avail = 0, fresh_ints = (\<lambda>j. 99), fresh_vals = (\<lambda>j. 77)\<rparr>)"
    by (simp add: aoclsparse_csr_fill_diag_def vector_alloc_def)
qed

section \<open>aoclsparse\_csr\_fill\_diag: the merge pass\<close>

lemma take_Suc_zip_update:
  assumes "k < length xs" and "length xs = length ys"
  shows "take (Suc k) (zip (xs[k := a]) (ys[k := b])) = take k (zip xs ys) @ [(a, b)]"
proof -
  have "zip (xs[k := a]) (ys[k := b]) = (zip xs ys)[k := (a, b)]"
    by (simp add: update_zip)
  then show ?thesis
    using assms by (simp add: take_Suc_conv_app_nth)
qed

text \<open>
  The inner loop started at \<open>idx\<close> with \<open>nnz_curr = nc\<close>: it appends the entries
  \<open>idx, ..., idxend - 1\<close> of the source row to the output, with a zero diagonal entry in
  front of the entry at which \<open>nnz_curr\<close> meets \<open>md\<close>.
\<close>

lemma fill_row_result:
  fixes vals :: "('a::zero) list"
  assumes "0 \<le> idx" and "idx \<le> idxend" and "0 \<le> nc" and "length icol = length aval"
      and "nat nc + nat (idxend - idx) + (if nc \<le> md \<and> md < nc + (idxend - idx) then 1 else 0)
           \<le> length icol"
  shows "\<exists>icol' aval'.
      fill_row col vals base i md idx idxend (na, nc, icol, aval)
      = (na + (if nc \<le> md \<and> md < nc + (idxend - idx) then 1 else 0),
         nc + (idxend - idx) + (if nc \<le> md \<and> md < nc + (idxend - idx) then 1 else 0),
         icol', aval')
      \<and> length icol' = length icol \<and> length aval' = length aval
      \<and> take (nat (nc + (idxend - idx) + (if nc \<le> md \<and> md < nc + (idxend - idx) then 1 else 0)))
            (zip icol' aval')
         = take (nat nc) (zip icol aval)
           @ (let es = map (\<lambda>k. (col ! k - base, vals ! k)) [nat idx ..< nat idxend]
              in if nc \<le> md \<and> md < nc + (idxend - idx)
                 then take (nat (md - nc)) es @ [(i, 0)] @ drop (nat (md - nc)) es
                 else es)"
  using assms
proof (induction col vals base i md idx idxend "(na, nc, icol, aval)"
         arbitrary: na nc icol aval rule: fill_row.induct)
  case (1 col vals base i md idx idxend na nc icol aval)
  show ?case
  proof (cases "idx < idxend")
    case False
    then have e: "idx = idxend" using "1.prems" by simp
    show ?thesis
      by (simp add: e fill_row.simps [of _ _ _ _ _ idxend idxend])
  next
    case True
    let ?e0 = "(col ! nat idx - base, vals ! nat idx)"
    let ?es' = "map (\<lambda>k. (col ! k - base, vals ! k)) [nat (idx + 1) ..< nat idxend]"
    have up: "map (\<lambda>k. (col ! k - base, vals ! k)) [nat idx ..< nat idxend] = ?e0 # ?es'"
      using True "1.prems"(1) by (simp add: upt_conv_Cons nat_add_distrib)
    have len: "nat (idxend - idx) = Suc (nat (idxend - (idx + 1)))"
      using True by simp
    show ?thesis
    proof (cases "nc = md")
      case eq: True
      let ?icol2 = "icol[nat nc := i, nat (nc + 1) := col ! nat idx - base]"
      let ?aval2 = "aval[nat nc := 0, nat (nc + 1) := vals ! nat idx]"
      have room: "Suc (nat nc) < length icol"
        using "1.prems"(5) True eq len by simp
      have step: "fill_row col vals base i md idx idxend (na, nc, icol, aval)
          = fill_row col vals base i md (idx + 1) idxend (na + 1, nc + 1 + 1, ?icol2, ?aval2)"
        using True eq
        by (subst fill_row.simps) (simp add: Let_def list_update_swap)
      have noins: "\<not> (nc + 1 + 1 \<le> md \<and> md < nc + 1 + 1 + (idxend - (idx + 1)))"
        using eq by simp
      have pre: "nat (nc + 1 + 1) + nat (idxend - (idx + 1))
           + (if nc + 1 + 1 \<le> md \<and> md < nc + 1 + 1 + (idxend - (idx + 1)) then 1 else 0)
           \<le> length ?icol2"
        using "1.prems"(3,5) True eq len by (simp add: nat_add_distrib)
      have l2: "length ?icol2 = length ?aval2" using "1.prems"(4) by simp
      have tk: "take (nat (nc + 1 + 1)) (zip ?icol2 ?aval2)
            = take (nat nc) (zip icol aval) @ [(i, 0), ?e0]"
      proof -
        have n2: "nat (nc + 1 + 1) = Suc (Suc (nat nc))" "nat (nc + 1) = Suc (nat nc)"
          "nat (2 + nc) = Suc (Suc (nat nc))"
          using "1.prems"(3) by (simp_all add: nat_add_distrib)
        have a: "take (Suc (Suc (nat nc))) (zip ?icol2 ?aval2)
            = take (Suc (nat nc)) (zip (icol[nat nc := i]) (aval[nat nc := 0])) @ [?e0]"
          using room "1.prems"(4) take_Suc_zip_update [of "Suc (nat nc)" "icol[nat nc := i]"
                "aval[nat nc := 0]" "col ! nat idx - base" "vals ! nat idx"]
          by (simp add: n2)
        have b: "take (Suc (nat nc)) (zip (icol[nat nc := i]) (aval[nat nc := 0]))
            = take (nat nc) (zip icol aval) @ [(i, 0)]"
          using room "1.prems"(4) by (intro take_Suc_zip_update) simp_all
        show ?thesis using a b by (simp add: n2)
      qed
      have i1: "0 \<le> idx + 1" "idx + 1 \<le> idxend" "0 \<le> nc + 1 + 1"
        using "1.prems"(1,3) True by simp_all
      have x: "(na + 1, nc + 1, icol[nat nc := i], aval[nat nc := 0])
          = (if nc = md then (na + 1, nc + 1, icol[nat nc := i], aval[nat nc := 0])
             else (na, nc, icol, aval))"
        using eq by simp
      obtain icol' aval' where r:
        "fill_row col vals base i md (idx + 1) idxend (na + 1, nc + 1 + 1, ?icol2, ?aval2)
         = (na + 1, nc + 1 + 1 + (idxend - (idx + 1)), icol', aval')"
        "length icol' = length ?icol2" "length aval' = length ?aval2"
        "take (nat (nc + 1 + 1 + (idxend - (idx + 1)))) (zip icol' aval')
         = take (nat (nc + 1 + 1)) (zip ?icol2 ?aval2) @ ?es'"
        using "1.hyps" [OF True x refl refl refl refl refl i1 l2 pre] noins
        by (auto simp: Let_def)
      have ins: "nc \<le> md \<and> md < nc + (idxend - idx)" using eq True by simp
      have ar: "nc + 1 + 1 + (idxend - (idx + 1)) = nc + (idxend - idx) + 1" by simp
      note r' = r [unfolded ar]
      show ?thesis
        apply (rule exI [of _ icol'], rule exI [of _ aval'])
        apply (simp only: ins if_True simp_thms step r' tk up Let_def)
        apply (simp add: eq)
        done
    next
      case ne: False
      let ?icol1 = "icol[nat nc := col ! nat idx - base]"
      let ?aval1 = "aval[nat nc := vals ! nat idx]"
      have room: "nat nc < length icol"
        using "1.prems"(5) len by simp
      have step: "fill_row col vals base i md idx idxend (na, nc, icol, aval)
          = fill_row col vals base i md (idx + 1) idxend (na, nc + 1, ?icol1, ?aval1)"
        using True ne
        by (subst fill_row.simps) (simp add: Let_def)
      have inseq: "(nc + 1 \<le> md \<and> md < nc + 1 + (idxend - (idx + 1)))
                   = (nc \<le> md \<and> md < nc + (idxend - idx))"
        using ne by auto
      have pre: "nat (nc + 1) + nat (idxend - (idx + 1))
           + (if nc + 1 \<le> md \<and> md < nc + 1 + (idxend - (idx + 1)) then 1 else 0)
           \<le> length ?icol1"
        unfolding inseq using "1.prems"(3,5) True len by (simp add: nat_add_distrib)
      have l1: "length ?icol1 = length ?aval1" using "1.prems"(4) by simp
      have tk: "take (nat (nc + 1)) (zip ?icol1 ?aval1) = take (nat nc) (zip icol aval) @ [?e0]"
      proof -
        have n1: "nat (nc + 1) = Suc (nat nc)" using "1.prems"(3) by (simp add: nat_add_distrib)
        show ?thesis unfolding n1 using room "1.prems"(4) by (intro take_Suc_zip_update) simp_all
      qed
      have i1: "0 \<le> idx + 1" "idx + 1 \<le> idxend" "0 \<le> nc + 1"
        using "1.prems"(1,3) True by simp_all
      have x: "(na, nc, icol, aval)
          = (if nc = md then (na + 1, nc + 1, icol[nat nc := i], aval[nat nc := 0])
             else (na, nc, icol, aval))"
        using ne by simp
      note IH = "1.hyps" [OF True x refl refl refl refl refl i1 l1 pre]
      show ?thesis
      proof (cases "nc \<le> md \<and> md < nc + (idxend - idx)")
        case ins: True
        then have t: "nat (md - nc) = Suc (nat (md - (nc + 1)))" using ne by auto
        obtain icol' aval' where r:
          "fill_row col vals base i md (idx + 1) idxend (na, nc + 1, ?icol1, ?aval1)
           = (na + 1, nc + 1 + (idxend - (idx + 1)) + 1, icol', aval')"
          "length icol' = length ?icol1" "length aval' = length ?aval1"
          "take (nat (nc + 1 + (idxend - (idx + 1)) + 1)) (zip icol' aval')
           = take (nat (nc + 1)) (zip ?icol1 ?aval1)
             @ take (nat (md - (nc + 1))) ?es' @ [(i, 0)] @ drop (nat (md - (nc + 1))) ?es'"
          using IH ne ins inseq by (auto simp: Let_def)
        have ar: "nc + 1 + (idxend - (idx + 1)) + 1 = nc + (idxend - idx) + 1" by simp
        note r' = r [unfolded ar]
        show ?thesis
          apply (rule exI [of _ icol'], rule exI [of _ aval'])
          apply (simp only: ins if_True simp_thms step r' tk up Let_def t)
          apply simp
          done
      next
        case noins: False
        obtain icol' aval' where r:
          "fill_row col vals base i md (idx + 1) idxend (na, nc + 1, ?icol1, ?aval1)
           = (na + 0, nc + 1 + (idxend - (idx + 1)), icol', aval')"
          "length icol' = length ?icol1" "length aval' = length ?aval1"
          "take (nat (nc + 1 + (idxend - (idx + 1)))) (zip icol' aval')
           = take (nat (nc + 1)) (zip ?icol1 ?aval1) @ ?es'"
          using IH ne noins inseq by (auto simp: Let_def)
        have ar: "nc + 1 + (idxend - (idx + 1)) = nc + (idxend - idx) + 0" by simp
        note r' = r [unfolded ar]
        show ?thesis
          apply (rule exI [of _ icol'], rule exI [of _ aval'])
          apply (simp only: noins if_False simp_thms step r' tk up Let_def)
          apply simp
          done
      qed
    qed
  qed
qed


text \<open>
  One pass of the row loop. The row gets its diagonal entry when \<open>missing_diag[i]\<close> lies
  between the value of \<open>nnz_curr\<close> at the start of the row and its value after the last
  entry of the row: inside the inner loop, or after it when the two are equal there.
\<close>

lemma fill_rows_step_result:
  fixes vals :: "('a::zero) list"
  assumes "base \<le> row ! i" and "row ! i \<le> row ! (i + 1)" and "0 \<le> nc"
      and "length icol = length aval"
      and "nat nc + nat (row ! (i + 1) - row ! i)
           + (if nc \<le> mdl ! i \<and> mdl ! i \<le> nc + (row ! (i + 1) - row ! i) then 1 else 0)
           \<le> length icol"
  shows "\<exists>icol' aval'.
      fill_rows_step row col vals base mdl i (na, nc, icrow, icol, aval)
      = (na + (if nc \<le> mdl ! i \<and> mdl ! i \<le> nc + (row ! (i + 1) - row ! i) then 1 else 0),
         nc + (row ! (i + 1) - row ! i)
           + (if nc \<le> mdl ! i \<and> mdl ! i \<le> nc + (row ! (i + 1) - row ! i) then 1 else 0),
         icrow[i := row ! i - base + na], icol', aval')
      \<and> length icol' = length icol \<and> length aval' = length aval
      \<and> take (nat (nc + (row ! (i + 1) - row ! i)
                   + (if nc \<le> mdl ! i \<and> mdl ! i \<le> nc + (row ! (i + 1) - row ! i) then 1 else 0)))
            (zip icol' aval')
         = take (nat nc) (zip icol aval)
           @ (if nc \<le> mdl ! i \<and> mdl ! i \<le> nc + (row ! (i + 1) - row ! i)
              then take (nat (mdl ! i - nc)) (csr_row row col vals base i) @ [(int i, 0)]
                   @ drop (nat (mdl ! i - nc)) (csr_row row col vals base i)
              else csr_row row col vals base i)"
proof -
  define idx where "idx = row ! i - base"
  define idxend where "idxend = row ! (i + 1) - base"
  define md where "md = mdl ! i"
  define len where "len = row ! (i + 1) - row ! i"
  define es where "es = csr_row row col vals base i"
  have d: "idxend - idx = len" by (simp add: idx_def idxend_def len_def)
  have i0: "0 \<le> idx" and i1: "idx \<le> idxend" and l0: "0 \<le> len"
    using assms(1,2) by (simp_all add: idx_def idxend_def len_def)
  have es: "map (\<lambda>k. (col ! k - base, vals ! k)) [nat idx ..< nat idxend] = es"
    by (simp add: csr_row_def es_def idx_def idxend_def)
  have les: "length es = nat len"
    using i0 i1 d unfolding es [symmetric] by simp
  have room: "nat nc + nat len + (if nc \<le> md \<and> md \<le> nc + len then 1 else 0) \<le> length icol"
    using assms(5) by (simp only: md_def len_def)
  have unf: "fill_rows_step row col vals base mdl i (na, nc, icrow, icol, aval)
      = (case fill_row col vals base (int i) md idx idxend (na, nc, icol, aval) of
           (n_added, nnz_curr, icol1, aval1) \<Rightarrow>
             if nnz_curr = md then
               (n_added + 1, nnz_curr + 1, icrow[i := idx + na], icol1[nat nnz_curr := int i],
                aval1[nat nnz_curr := 0])
             else (n_added, nnz_curr, icrow[i := idx + na], icol1, aval1))"
    by (simp add: fill_rows_step_def Let_def idx_def idxend_def md_def split_beta)
  have goal: "\<exists>icol' aval'.
      fill_rows_step row col vals base mdl i (na, nc, icrow, icol, aval)
      = (na + (if nc \<le> md \<and> md \<le> nc + len then 1 else 0),
         nc + len + (if nc \<le> md \<and> md \<le> nc + len then 1 else 0),
         icrow[i := idx + na], icol', aval')
      \<and> length icol' = length icol \<and> length aval' = length aval
      \<and> take (nat (nc + len + (if nc \<le> md \<and> md \<le> nc + len then 1 else 0))) (zip icol' aval')
         = take (nat nc) (zip icol aval)
           @ (if nc \<le> md \<and> md \<le> nc + len
              then take (nat (md - nc)) es @ [(int i, 0)] @ drop (nat (md - nc)) es
              else es)"
  proof -
    consider (inside) "nc \<le> md \<and> md < nc + len" | (atend) "md = nc + len"
      | (none) "\<not> (nc \<le> md \<and> md \<le> nc + len)"
      by linarith
    then show ?thesis
    proof cases
      case inside
      have rm: "nat nc + nat (idxend - idx)
                + (if nc \<le> md \<and> md < nc + (idxend - idx) then 1 else 0) \<le> length icol"
        using room inside unfolding d by simp
      obtain icol' aval' where r:
        "fill_row col vals base (int i) md idx idxend (na, nc, icol, aval)
         = (na + 1, nc + len + 1, icol', aval')"
        "length icol' = length icol" "length aval' = length aval"
        "take (nat (nc + len + 1)) (zip icol' aval')
         = take (nat nc) (zip icol aval)
           @ take (nat (md - nc)) es @ [(int i, 0)] @ drop (nat (md - nc)) es"
        using fill_row_result [OF i0 i1 assms(3,4) rm, of col vals base "int i" na] inside
        unfolding d es Let_def by auto
      have ne: "nc + len + 1 \<noteq> md" using inside by simp
      have ins: "nc \<le> md \<and> md \<le> nc + len" using inside by simp
      show ?thesis
        apply (rule exI [of _ icol'], rule exI [of _ aval'])
        apply (simp only: unf r ins if_True simp_thms prod.case ne if_False)
        done
    next
      case atend
      have rm: "nat nc + nat (idxend - idx)
                + (if nc \<le> md \<and> md < nc + (idxend - idx) then 1 else 0) \<le> length icol"
        using room atend unfolding d by simp
      have noins: "\<not> (nc \<le> md \<and> md < nc + (idxend - idx))" using atend unfolding d by simp
      obtain icol1 aval1 where r:
        "fill_row col vals base (int i) md idx idxend (na, nc, icol, aval)
         = (na, md, icol1, aval1)"
        "length icol1 = length icol" "length aval1 = length aval"
        "take (nat md) (zip icol1 aval1) = take (nat nc) (zip icol aval) @ es"
        using fill_row_result [OF i0 i1 assms(3,4) rm, of col vals base "int i" na] noins atend
        unfolding d es Let_def by auto
      have lt: "nat md < length icol1" using room atend l0 assms(3) r(2) by simp
      have tk: "take (nat (md + 1)) (zip (icol1[nat md := int i]) (aval1[nat md := 0]))
                = take (nat md) (zip icol1 aval1) @ [(int i, 0)]"
        using take_Suc_zip_update [OF lt, of aval1 "int i" 0] r(2,3) assms(4) atend l0 assms(3)
        by (simp add: nat_add_distrib)
      have ins: "nc \<le> md \<and> md \<le> nc + len" using atend l0 by simp
      have ar: "nc + len + 1 = md + 1" "nat (md - nc) = length es" using atend les l0 by simp_all
      show ?thesis
        apply (rule exI [of _ "icol1[nat md := int i]"], rule exI [of _ "aval1[nat md := 0]"])
        apply (simp only: unf r ins if_True simp_thms prod.case ar tk)
        apply (simp add: r)
        done
    next
      case none
      have noins: "\<not> (nc \<le> md \<and> md < nc + (idxend - idx))" using none unfolding d by auto
      have rm: "nat nc + nat (idxend - idx)
                + (if nc \<le> md \<and> md < nc + (idxend - idx) then 1 else 0) \<le> length icol"
        using room none noins unfolding d by (auto split: if_splits)
      obtain icol1 aval1 where r:
        "fill_row col vals base (int i) md idx idxend (na, nc, icol, aval)
         = (na, nc + len, icol1, aval1)"
        "length icol1 = length icol" "length aval1 = length aval"
        "take (nat (nc + len)) (zip icol1 aval1) = take (nat nc) (zip icol aval) @ es"
        using fill_row_result [OF i0 i1 assms(3,4) rm, of col vals base "int i" na] noins
        unfolding d es Let_def by auto
      have ne: "nc + len \<noteq> md" using none l0 by auto
      show ?thesis
        apply (rule exI [of _ icol1], rule exI [of _ aval1])
        apply (simp only: unf r none if_False simp_thms prod.case ne)
        apply (simp add: r)
        done
    qed
  qed
  show ?thesis
    using goal unfolding idx_def md_def len_def es_def .
qed

text \<open>
  What the first pass finds in a row with strictly increasing columns: the row counts as
  missing its diagonal exactly when no entry has the column \<open>i < n\<close>, and the scan stops
  behind the entries of smaller column.
\<close>

lemma scan_with_diagonal:
  fixes vals :: "('a::zero) list"
  assumes "base \<le> row ! i" and "sorted_wrt (<) (map fst (csr_row row col vals base i))"
  shows "scan_missing row col base n i
         \<longleftrightarrow> int i < n \<and> int i \<notin> set (map fst (csr_row row col vals base i))"
    and "(if scan_missing row col base n i
          then take (nat (scan_pos row col base i - (row ! i - base))) (csr_row row col vals base i)
               @ [(int i, 0)]
               @ drop (nat (scan_pos row col base i - (row ! i - base))) (csr_row row col vals base i)
          else csr_row row col vals base i)
         = with_diagonal n i (csr_row row col vals base i)"
    and "row ! i - base \<le> scan_pos row col base i"
    and "row ! i \<le> row ! (i + 1) \<Longrightarrow> scan_pos row col base i \<le> row ! (i + 1) - base"
proof -
  let ?es = "csr_row row col vals base i"
  let ?cs = "map (\<lambda>k. col ! k - base) [nat (row ! i - base) ..< nat (row ! (i + 1) - base)]"
  let ?t = "length (takeWhile (\<lambda>c. c < int i) ?cs)"
  have cs: "map fst ?es = ?cs"
    by (simp add: csr_row_def o_def)
  have i0: "0 \<le> row ! i - base" using assms(1) by simp
  have e: "diag_scan col base (int i) (row ! i - base) (row ! (i + 1) - base)
      = (?t < length ?cs \<and> ?cs ! ?t = int i, row ! i - base + int ?t)"
    using i0 by (simp only: diag_scan_eq Let_def)
  have pos: "scan_pos row col base i = row ! i - base + int ?t"
    by (simp only: scan_pos_def e snd_conv)
  have srt: "sorted ?cs"
    using assms(2) unfolding cs by (simp add: strict_sorted_iff)
  have found: "(?t < length ?cs \<and> ?cs ! ?t = int i) \<longleftrightarrow> int i \<in> set ?cs"
  proof
    assume "?t < length ?cs \<and> ?cs ! ?t = int i"
    then show "int i \<in> set ?cs" by (metis nth_mem)
  next
    assume "int i \<in> set ?cs"
    then show "?t < length ?cs \<and> ?cs ! ?t = int i"
      using sorted_first_not_less [OF srt] by blast
  qed
  show m: "scan_missing row col base n i \<longleftrightarrow> int i < n \<and> int i \<notin> set (map fst ?es)"
    unfolding cs by (simp only: scan_missing_def e fst_conv found) blast
  have tl: "?t = length (takeWhile (\<lambda>e. fst e < int i) ?es)"
    unfolding cs [symmetric] by (simp add: takeWhile_map o_def)
  have tk: "take ?t ?es = takeWhile (\<lambda>e. fst e < int i) ?es"
    unfolding tl by (rule takeWhile_eq_take [symmetric])
  have dr: "drop ?t ?es = dropWhile (\<lambda>e. fst e < int i) ?es"
    unfolding tl by (rule dropWhile_eq_drop [symmetric])
  have nt: "nat (scan_pos row col base i - (row ! i - base)) = ?t"
    by (simp add: pos)
  show "(if scan_missing row col base n i
          then take (nat (scan_pos row col base i - (row ! i - base))) ?es @ [(int i, 0)]
               @ drop (nat (scan_pos row col base i - (row ! i - base))) ?es
          else ?es)
         = with_diagonal n i ?es"
    unfolding nt tk dr with_diagonal_def m by simp
  show "row ! i - base \<le> scan_pos row col base i"
    by (simp add: pos)
  have "?t \<le> length ?cs" by (rule length_takeWhile_le)
  then show "scan_pos row col base i \<le> row ! (i + 1) - base" if "row ! i \<le> row ! (i + 1)"
    using that i0 unfolding pos by simp
qed

lemma with_diagonal_once:
  assumes "int i < n" and "sorted_wrt (<) (map fst es)"
  shows "length (filter (\<lambda>e. fst e = int i) (with_diagonal n i es)) = 1"
proof (cases "int i \<in> set (map fst es)")
  case True
  have d: "distinct (map fst es)" using assms(2) by (simp add: strict_sorted_iff)
  have "length (filter (\<lambda>e. fst e = int i) es) = length (filter (\<lambda>c. c = int i) (map fst es))"
    by (simp add: filter_map o_def)
  also have "\<dots> = card ({c. c = int i} \<inter> set (map fst es))"
    using d by (rule distinct_length_filter)
  also have "{c. c = int i} \<inter> set (map fst es) = {int i}" using True by auto
  finally show ?thesis using True by (simp add: with_diagonal_def)
next
  case False
  have "\<forall>e \<in> set es. fst e \<noteq> int i" using False by force
  then have a: "filter (\<lambda>e. fst e = int i) (takeWhile (\<lambda>e. fst e < int i) es) = []"
       and b: "filter (\<lambda>e. fst e = int i) (dropWhile (\<lambda>e. fst e < int i) es) = []"
    by (auto simp: filter_empty_conv dest: set_takeWhileD set_dropWhileD)
  show ?thesis using False assms(1) by (simp add: with_diagonal_def a b)
qed

lemma length_with_diagonal:
  "length (with_diagonal n i es)
   = length es + (if int i < n \<and> int i \<notin> set (map fst es) then 1 else 0)"
proof -
  have "length (takeWhile (\<lambda>e. fst e < int i) es) + length (dropWhile (\<lambda>e. fst e < int i) es)
        = length es"
    by (metis length_append takeWhile_dropWhile_id)
  then show ?thesis by (simp add: with_diagonal_def)
qed


lemma row_offsets_mono:
  assumes "\<forall>i<k. (row ! i :: int) \<le> row ! (i + 1)" and "i \<le> j" and "j \<le> k"
  shows "row ! i \<le> row ! j"
  using assms(2,3)
proof (induction j)
  case 0
  then show ?case by simp
next
  case (Suc j)
  show ?case
  proof (cases "i = Suc j")
    case True
    then show ?thesis by simp
  next
    case False
    then have "row ! i \<le> row ! j" using Suc by simp
    moreover have "row ! j \<le> row ! (j + 1)" using assms(1) Suc.prems by simp
    ultimately show ?thesis by simp
  qed
qed

text \<open>
  The second pass over the rows \<open>0, ..., k - 1\<close>, with \<open>missing_diag\<close> as the first pass
  leaves it: \<open>n_added\<close> counts the rows completed so far, the new offset of a row is its
  old one plus the number of rows completed before it, and the output holds the completed
  rows one after the other.
\<close>

lemma fill_rows_fold:
  fixes vals :: "('a::zero) list"
  assumes "row ! 0 = base"
      and "\<forall>i<k. row ! i \<le> row ! (i + 1)
                 \<and> sorted_wrt (<) (map fst (csr_row row col vals base i))"
      and "\<forall>i<k. mdl ! i = (if scan_missing row col base n i
                              then scan_pos row col base i + scan_count row col base n i
                              else - 1)"
      and "length icol = length aval"
      and "nat (row ! k - base + scan_count row col base n k) \<le> length icol"
  shows "\<exists>icrow' icol' aval'.
      fold (fill_rows_step row col vals base mdl) [0..<k] (0, 0, icrow, icol, aval)
      = (scan_count row col base n k, row ! k - base + scan_count row col base n k,
         icrow', icol', aval')
      \<and> length icrow' = length icrow
      \<and> (\<forall>i<k. i < length icrow \<longrightarrow> icrow' ! i = row ! i - base + scan_count row col base n i)
      \<and> length icol' = length icol \<and> length aval' = length aval
      \<and> take (nat (row ! k - base + scan_count row col base n k)) (zip icol' aval')
        = concat (map (\<lambda>i. with_diagonal n i (csr_row row col vals base i)) [0..<k])"
  using assms
proof (induction k)
  case 0
  then show ?case by (simp add: scan_count_def)
next
  case (Suc k)
  define sc where "sc = scan_count row col base n"
  define es where "es = csr_row row col vals base k"
  define nc where "nc = row ! k - base + sc k"
  define len where "len = row ! (k + 1) - row ! k"
  define d :: int where "d = (if scan_missing row col base n k then 1 else 0)"
  have mono: "row ! k \<le> row ! (k + 1)" and srt: "sorted_wrt (<) (map fst es)"
    using Suc.prems(2) by (simp_all add: es_def)
  have p2: "\<forall>i<k. row ! i \<le> row ! (i + 1)
                 \<and> sorted_wrt (<) (map fst (csr_row row col vals base i))"
    using Suc.prems(2) by simp
  have p3: "\<forall>i<k. mdl ! i = (if scan_missing row col base n i
                              then scan_pos row col base i + scan_count row col base n i
                              else - 1)"
    using Suc.prems(3) by simp
  have "row ! 0 \<le> row ! k"
    using row_offsets_mono [of k row 0 k] p2 by simp
  then have b0: "base \<le> row ! k" using Suc.prems(1) by simp
  have l0: "0 \<le> len" using mono by (simp add: len_def)
  have sc0: "0 \<le> sc k" by (simp add: sc_def scan_count_def)
  have nc0: "0 \<le> nc" using b0 sc0 by (simp add: nc_def)
  have d0: "0 \<le> d" by (simp add: d_def)
  have scS: "scan_count row col base n (Suc k) = sc k + d"
    by (simp add: sc_def d_def scan_count_def)
  have eq2: "row ! Suc k - base + scan_count row col base n (Suc k) = nc + len + d"
    by (simp add: scS nc_def len_def)
  have eq3: "row ! Suc k - base + (sc k + d) = nc + len + d"
    by (simp add: nc_def len_def)
  have md: "mdl ! k = (if scan_missing row col base n k
                       then scan_pos row col base k + sc k else - 1)"
    using Suc.prems(3) by (simp add: sc_def)
  note sw = scan_with_diagonal [OF b0 srt [unfolded es_def], folded es_def]
  have D: "(nc \<le> mdl ! k \<and> mdl ! k \<le> nc + len) \<longleftrightarrow> scan_missing row col base n k"
  proof (cases "scan_missing row col base n k")
    case True
    then have "mdl ! k = scan_pos row col base k + sc k" using md by simp
    then show ?thesis using True sw(3) sw(4) [OF mono] by (simp add: nc_def len_def)
  next
    case False
    then have "mdl ! k = - 1" using md by simp
    then show ?thesis using False nc0 by simp
  qed
  have room_k: "nat (row ! k - base + scan_count row col base n k) \<le> length icol"
    using Suc.prems(5) eq2 l0 d0 nc0 unfolding nc_def sc_def by linarith
  obtain icrow1 icol1 aval1 where ih:
    "fold (fill_rows_step row col vals base mdl) [0..<k] (0, 0, icrow, icol, aval)
     = (sc k, nc, icrow1, icol1, aval1)"
    "length icrow1 = length icrow"
    "\<forall>i<k. i < length icrow \<longrightarrow> icrow1 ! i = row ! i - base + sc i"
    "length icol1 = length icol" "length aval1 = length aval"
    "take (nat nc) (zip icol1 aval1)
     = concat (map (\<lambda>i. with_diagonal n i (csr_row row col vals base i)) [0..<k])"
    using Suc.IH [OF Suc.prems(1) p2 p3 Suc.prems(4) room_k] unfolding sc_def nc_def by blast
  have l1: "length icol1 = length aval1" using ih(4,5) Suc.prems(4) by simp
  have tot: "nat nc + nat len + nat d \<le> length icol1"
    using Suc.prems(5) eq2 l0 d0 nc0 ih(4) by linarith
  have st: "\<exists>icol' aval'.
      fill_rows_step row col vals base mdl k (sc k, nc, icrow1, icol1, aval1)
      = (sc k + d, nc + len + d, icrow1[k := row ! k - base + sc k], icol', aval')
      \<and> length icol' = length icol1 \<and> length aval' = length aval1
      \<and> take (nat (nc + len + d)) (zip icol' aval')
         = take (nat nc) (zip icol1 aval1) @ with_diagonal n k es"
  proof (cases "scan_missing row col base n k")
    case True
    have c: "nc \<le> mdl ! k \<and> mdl ! k \<le> nc + (row ! (k + 1) - row ! k)"
      using D True by (simp add: len_def)
    have d1: "d = 1" using True by (simp add: d_def)
    have room: "nat nc + nat (row ! (k + 1) - row ! k)
                + (if nc \<le> mdl ! k \<and> mdl ! k \<le> nc + (row ! (k + 1) - row ! k) then 1 else 0)
                \<le> length icol1"
      using tot c d1 by (simp add: len_def)
    have t: "nat (mdl ! k - nc) = nat (scan_pos row col base k - (row ! k - base))"
      using md True by (simp add: nc_def)
    have w: "take (nat (mdl ! k - nc)) es @ [(int k, 0)] @ drop (nat (mdl ! k - nc)) es
             = with_diagonal n k es"
      using sw(2) [of n] True unfolding t by simp
    show ?thesis
      using fill_rows_step_result [OF b0 mono nc0 l1 room, of col vals "sc k" icrow1]
      unfolding d1 w [symmetric]
      by (simp only: c if_True simp_thms len_def es_def)
  next
    case False
    have c: "\<not> (nc \<le> mdl ! k \<and> mdl ! k \<le> nc + (row ! (k + 1) - row ! k))"
      using D False by (simp add: len_def)
    have d1: "d = 0" using False by (simp add: d_def)
    have room: "nat nc + nat (row ! (k + 1) - row ! k)
                + (if nc \<le> mdl ! k \<and> mdl ! k \<le> nc + (row ! (k + 1) - row ! k) then 1 else 0)
                \<le> length icol1"
      using tot c d1 by (auto simp: len_def)
    have w: "es = with_diagonal n k es"
      using sw(2) [of n] False by simp
    show ?thesis
      using fill_rows_step_result [OF b0 mono nc0 l1 room, of col vals "sc k" icrow1]
      unfolding d1
      by (simp only: c if_False simp_thms len_def es_def w [unfolded es_def, symmetric])
  qed
  then obtain icol' aval' where st:
    "fill_rows_step row col vals base mdl k (sc k, nc, icrow1, icol1, aval1)
     = (sc k + d, nc + len + d, icrow1[k := row ! k - base + sc k], icol', aval')"
    "length icol' = length icol1" "length aval' = length aval1"
    "take (nat (nc + len + d)) (zip icol' aval')
     = take (nat nc) (zip icol1 aval1) @ with_diagonal n k es"
    by blast
  have fs: "fold (fill_rows_step row col vals base mdl) [0..<Suc k] (0, 0, icrow, icol, aval)
      = (sc k + d, nc + len + d, icrow1[k := row ! k - base + sc k], icol', aval')"
    by (simp only: upt_Suc_append [OF le0] fold_append fold_simps o_apply ih(1) st(1))
  have rows: "\<forall>i<Suc k. i < length icrow \<longrightarrow>
      (icrow1[k := row ! k - base + sc k]) ! i = row ! i - base + scan_count row col base n i"
    using ih(2,3) by (auto simp: nth_list_update less_Suc_eq sc_def)
  have cc: "take (nat (nc + len + d)) (zip icol' aval')
      = concat (map (\<lambda>i. with_diagonal n i (csr_row row col vals base i)) [0..<Suc k])"
    unfolding st(4) ih(6) by (simp add: es_def)
  show ?case
    apply (rule exI [of _ "icrow1[k := row ! k - base + sc k]"])
    apply (rule exI [of _ icol'], rule exI [of _ aval'])
    apply (simp only: scS eq3 fs cc)
    apply (simp add: st(2,3) ih(2,4,5) rows)
    done
qed

lemma rows_length:
  fixes vals :: "('a::zero) list"
  assumes "row ! 0 = base"
      and "\<forall>i<k. row ! i \<le> row ! (i + 1)
                 \<and> sorted_wrt (<) (map fst (csr_row row col vals base i))"
  shows "int (length (concat (map (\<lambda>i. with_diagonal n i (csr_row row col vals base i)) [0..<k])))
         = row ! k - base + scan_count row col base n k"
  using assms
proof (induction k)
  case 0
  then show ?case by (simp add: scan_count_def)
next
  case (Suc k)
  have p2: "\<forall>i<k. row ! i \<le> row ! (i + 1)
                 \<and> sorted_wrt (<) (map fst (csr_row row col vals base i))"
    using Suc.prems(2) by simp
  have mono: "row ! k \<le> row ! (k + 1)"
   and srt: "sorted_wrt (<) (map fst (csr_row row col vals base k))"
    using Suc.prems(2) by simp_all
  have "row ! 0 \<le> row ! k"
    using row_offsets_mono [of k row 0 k] p2 by simp
  then have b0: "base \<le> row ! k" using Suc.prems(1) by simp
  have le: "int (length (csr_row row col vals base k)) = row ! (k + 1) - row ! k"
    using b0 mono by (simp add: csr_row_def)
  have m: "scan_missing row col base n k
           \<longleftrightarrow> int k < n \<and> int k \<notin> set (map fst (csr_row row col vals base k))"
    by (rule scan_with_diagonal(1) [OF b0 srt])
  have lw: "int (length (with_diagonal n k (csr_row row col vals base k)))
            = row ! (k + 1) - row ! k + (if scan_missing row col base n k then 1 else 0)"
    unfolding length_with_diagonal m [symmetric] using le by simp
  have sc: "scan_count row col base n (Suc k)
            = scan_count row col base n k + (if scan_missing row col base n k then 1 else 0)"
    by (simp add: scan_count_def)
  show ?case
    using Suc.IH [OF Suc.prems(1) p2] lw sc by simp
qed

lemma slice_of_rows:
  assumes "take c zs = concat (map out [0..<k])" and "i < k" and "c \<le> length zs"
      and "a = length (concat (map out [0..<i]))" and "b = a + length (out i)"
  shows "map (\<lambda>j. zs ! j) [a..<b] = out i"
proof (rule nth_equalityI)
  show "length (map (\<lambda>j. zs ! j) [a..<b]) = length (out i)"
    using assms(5) by simp
next
  fix j
  assume "j < length (map (\<lambda>j. zs ! j) [a..<b])"
  then have j: "j < length (out i)" using assms(5) by simp
  have "[0..<k] = [0..<i] @ [i..<k]"
    using assms(2) upt_add_eq_append [of 0 i "k - i"] by simp
  then have "[0..<k] = [0..<i] @ i # [Suc i..<k]"
    using assms(2) by (simp add: upt_conv_Cons)
  then have split: "concat (map out [0..<k])
      = concat (map out [0..<i]) @ out i @ concat (map out [Suc i..<k])"
    by simp
  have "length (take c zs) = c" using assms(3) by simp
  then have c: "c = a + length (out i) + length (concat (map out [Suc i..<k]))"
    unfolding assms(1) split assms(4) by simp
  then have lt: "a + j < c" using j by simp
  have "zs ! (a + j) = take c zs ! (a + j)" using lt by simp
  also have "\<dots> = out i ! j"
    unfolding assms(1) split using j by (simp add: nth_append assms(4))
  finally show "map (\<lambda>j. zs ! j) [a..<b] ! j = out i ! j"
    using j assms(5) by simp
qed

text \<open>
  Reading the rows back from the new arrays, whose offsets are the old ones (without the
  base) plus the number of rows completed before.
\<close>

lemma merged_rows_readback:
  fixes vals :: "('a::zero) list"
  assumes "row ! 0 = base"
      and "\<forall>i<k. row ! i \<le> row ! (i + 1)
                 \<and> sorted_wrt (<) (map fst (csr_row row col vals base i))"
      and "take (nat (row ! k - base + scan_count row col base n k)) (zip icol aval)
           = concat (map (\<lambda>i. with_diagonal n i (csr_row row col vals base i)) [0..<k])"
      and "length icol = length aval"
      and "nat (row ! k - base + scan_count row col base n k) \<le> length icol"
      and "\<forall>i\<le>k. row' ! i = row ! i - base + scan_count row col base n i"
      and "i < k"
  shows "csr_row row' icol aval 0 i = with_diagonal n i (csr_row row col vals base i)"
proof -
  let ?out = "\<lambda>i. with_diagonal n i (csr_row row col vals base i)"
  define a where "a = length (concat (map ?out [0..<i]))"
  define b where "b = length (concat (map ?out [0..<Suc i]))"
  define c where "c = nat (row ! k - base + scan_count row col base n k)"
  have pi: "\<forall>j<i. row ! j \<le> row ! (j + 1)
                 \<and> sorted_wrt (<) (map fst (csr_row row col vals base j))"
   and ps: "\<forall>j<Suc i. row ! j \<le> row ! (j + 1)
                 \<and> sorted_wrt (<) (map fst (csr_row row col vals base j))"
    using assms(2,7) by simp_all
  have ra: "int a = row' ! i"
    using rows_length [OF assms(1) pi, of n] assms(6,7) by (simp add: a_def)
  have rb: "int b = row' ! (i + 1)"
    using rows_length [OF assms(1) ps, of n] assms(6,7) by (simp add: b_def)
  have ba: "b = a + length (?out i)" by (simp add: a_def b_def)
  have ck: "c = length (concat (map ?out [0..<k]))"
    using rows_length [OF assms(1,2), of n] by (simp add: c_def)
  have "[0..<k] = [0..<Suc i] @ [Suc i..<k]"
    using assms(7) upt_add_eq_append [of 0 "Suc i" "k - Suc i"] by simp
  then have "concat (map ?out [0..<k]) = concat (map ?out [0..<Suc i]) @ concat (map ?out [Suc i..<k])"
    by (metis concat_append map_append)
  then have bc: "b \<le> c" unfolding ck b_def by simp
  have cl: "c \<le> length (zip icol aval)" using assms(4,5) by (simp add: c_def)
  have sl: "map (\<lambda>j. zip icol aval ! j) [a..<b] = ?out i"
    using assms(3) [folded c_def] assms(7) cl a_def ba by (rule slice_of_rows)
  have na: "nat (row' ! i) = a" "nat (row' ! Suc i) = b"
    using ra rb by simp_all
  have "csr_row row' icol aval 0 i = map (\<lambda>j. (icol ! j, aval ! j)) [a..<b]"
    by (simp add: csr_row_def na)
  also have "\<dots> = map (\<lambda>j. zip icol aval ! j) [a..<b]"
    using bc cl by (intro map_cong) auto
  finally show ?thesis using sl by simp
qed

lemma new_array_SomeD:
  "new_array n h = Some (a, h1) \<Longrightarrow>
   0 \<le> n \<and> a = length (int_arrays h)
   \<and> int_arrays h1 = int_arrays h @ [Some (map (fresh_ints h) [0..<nat n])]
   \<and> val_arrays h1 = val_arrays h
   \<and> fresh_ints h1 = fresh_ints h \<and> fresh_vals h1 = fresh_vals h"
  by (auto simp: new_array_def split: if_splits)

lemma operator_new_SomeD:
  "operator_new n h = Some (a, h1) \<Longrightarrow>
   0 \<le> n \<and> a = length (val_arrays h)
   \<and> val_arrays h1 = val_arrays h @ [Some (map (fresh_vals h) [0..<nat n])]
   \<and> int_arrays h1 = int_arrays h
   \<and> fresh_ints h1 = fresh_ints h \<and> fresh_vals h1 = fresh_vals h"
  by (auto simp: operator_new_def split: if_splits)

text \<open>
  The three arrays that \<open>aoclsparse_csr_fill_diag\<close> allocates hold whatever the allocation
  left in them. After the call they are read back from the heap: freeing the arrays of the
  input does not reach them.
\<close>

lemma fill_diag_new_arrays:
  fixes h0 :: "'a heap"
  assumes "new_array n1 h0 = Some (icrow, h1)" and "new_array n2 h1 = Some (icol, h2)"
      and "operator_new n3 h2 = Some (aval, h3)"
      and "ar < length (int_arrays h0)" and "ac < length (int_arrays h0)"
      and "av < length (val_arrays h0)"
  shows "int_array (operator_delete (Some av) (delete_array (Some ar) (delete_array (Some ac)
            (set_val_array aval zs (set_int_array icol ys (set_int_array icrow xs h3))))))
           (Some icrow) = Some xs"
    and "int_array (operator_delete (Some av) (delete_array (Some ar) (delete_array (Some ac)
            (set_val_array aval zs (set_int_array icol ys (set_int_array icrow xs h3))))))
           (Some icol) = Some ys"
    and "val_array (operator_delete (Some av) (delete_array (Some ar) (delete_array (Some ac)
            (set_val_array aval zs (set_int_array icol ys (set_int_array icrow xs h3))))))
           (Some aval) = Some zs"
    and "icrow \<noteq> ar"
    and "deref_int h3 (Some icrow) = map (fresh_ints h0) [0..<nat n1]"
    and "deref_int h3 (Some icol) = map (fresh_ints h0) [0..<nat n2]"
    and "deref_val h3 (Some aval) = map (fresh_vals h0) [0..<nat n3]"
proof -
  note a = new_array_SomeD [OF assms(1)] new_array_SomeD [OF assms(2)]
           operator_new_SomeD [OF assms(3)]
  show "int_array (operator_delete (Some av) (delete_array (Some ar) (delete_array (Some ac)
            (set_val_array aval zs (set_int_array icol ys (set_int_array icrow xs h3))))))
           (Some icrow) = Some xs"
    using a assms(4,5,6)
    by (simp add: int_array_def operator_delete_def delete_array_def set_val_array_def
          set_int_array_def nth_list_update nth_append)
  show "int_array (operator_delete (Some av) (delete_array (Some ar) (delete_array (Some ac)
            (set_val_array aval zs (set_int_array icol ys (set_int_array icrow xs h3))))))
           (Some icol) = Some ys"
    using a assms(4,5,6)
    by (simp add: int_array_def operator_delete_def delete_array_def set_val_array_def
          set_int_array_def nth_list_update nth_append)
  show "val_array (operator_delete (Some av) (delete_array (Some ar) (delete_array (Some ac)
            (set_val_array aval zs (set_int_array icol ys (set_int_array icrow xs h3))))))
           (Some aval) = Some zs"
    using a assms(4,5,6)
    by (simp add: val_array_def operator_delete_def delete_array_def set_val_array_def
          set_int_array_def nth_list_update nth_append)
  show "icrow \<noteq> ar" using a assms(4) by simp
  show "deref_int h3 (Some icrow) = map (fresh_ints h0) [0..<nat n1]"
    using a by (simp add: deref_int_def int_array_def nth_append)
  show "deref_int h3 (Some icol) = map (fresh_ints h0) [0..<nat n2]"
    using a by (simp add: deref_int_def int_array_def nth_append)
  show "deref_val h3 (Some aval) = map (fresh_vals h0) [0..<nat n3]"
    using a by (simp add: deref_val_def val_array_def nth_append)
qed

text \<open>
  The effect of a successful call on a matrix in which the columns of every row increase
  strictly, for any base. The arrays are those of the input, read with its base, when no
  row was completed; they are new and zero-based otherwise.
\<close>

lemma fill_diag_rows:
  fixes h :: "('a::zero) heap"
  assumes "int_array h (csr_row_ptr A) = Some row"
      and "int_array h (csr_col_ptr A) = Some col"
      and "val_array h (csr_val A) = Some vals"
      and "row ! 0 = base" and "row ! nat m = base + nnz"
      and "\<forall>i < nat m. row ! i \<le> row ! (i + 1)
             \<and> sorted_wrt (<) (map fst (csr_row row col vals base i))"
      and "aoclsparse_csr_fill_diag m n nnz base A h = Inr (aoclsparse_status_success, A', h')"
  shows "\<exists>row' col' vals'.
      int_array h' (csr_row_ptr A') = Some row'
      \<and> int_array h' (csr_col_ptr A') = Some col'
      \<and> val_array h' (csr_val A') = Some vals'
      \<and> (\<forall>i < nat m.
            csr_row row' col' vals' (if csr_row_ptr A' = csr_row_ptr A then base else 0) i
            = with_diagonal n i (csr_row row col vals base i)
            \<and> (int i < n \<longrightarrow>
                 length (filter (\<lambda>e. fst e = int i)
                   (csr_row row' col' vals'
                      (if csr_row_ptr A' = csr_row_ptr A then base else 0) i)) = 1))
      \<and> row' ! nat m - row' ! 0
        = nnz + int (length (filter
            (\<lambda>i. int i < n \<and> int i \<notin> set (map fst (csr_row row col vals base i)))
            [0..<nat m]))"
proof -
  obtain ar ac av where p: "csr_row_ptr A = Some ar" "csr_col_ptr A = Some ac" "csr_val A = Some av"
    using assms(1,2,3)
    by (cases "csr_row_ptr A"; cases "csr_col_ptr A"; cases "csr_val A";
        simp add: int_array_def val_array_def)
  define sc where "sc = scan_count row col base n (nat m)"
  define mdl where "mdl = map (\<lambda>i. if i < nat m \<and> scan_missing row col base n i
                then scan_pos row col base i + scan_count row col base n i else - 1) [0..<nat m]"
  note call = assms(7)
  obtain h0 where v: "vector_alloc m h = Inr h0"
    using call
    by (cases "vector_alloc m h")
       (auto simp: aoclsparse_csr_fill_diag_def split: cpp_exception.splits)
  note va = vector_alloc_Inr [OF v]
  have m0: "0 \<le> m" by (rule va(1))
  have live: "int_array h0 (Some ar) = Some row" "int_array h0 (Some ac) = Some col"
             "val_array h0 (Some av) = Some vals"
    using assms(1,2,3) by (simp_all add: va(6,7) p)
  have dr: "deref_int h0 (Some ar) = row" "deref_int h0 (Some ac) = col"
           "deref_val h0 (Some av) = vals"
    using live by (simp_all add: deref_int_def deref_val_def)
  have cr: "fold (check_row row col base n) [0..<nat m] (0, replicate (nat m) (- 1)) = (sc, mdl)"
    unfolding sc_def mdl_def by (rule check_rows_fold) simp
  have mono: "\<forall>i<nat m. row ! i \<le> row ! (i + 1)" using assms(6) by simp
  have bi: "base \<le> row ! i" if "i < nat m" for i
    using row_offsets_mono [OF mono, of 0 i] that assms(4) by simp
  have miss: "scan_missing row col base n i
      \<longleftrightarrow> int i < n \<and> int i \<notin> set (map fst (csr_row row col vals base i))"
    if "i < nat m" for i
    using scan_with_diagonal(1) [OF bi [OF that]] assms(6) that by blast
  have "filter (scan_missing row col base n) [0..<nat m]
        = filter (\<lambda>i. int i < n \<and> int i \<notin> set (map fst (csr_row row col vals base i)))
            [0..<nat m]"
    by (rule filter_cong) (simp_all add: miss)
  then have cnt: "sc = int (length (filter
            (\<lambda>i. int i < n \<and> int i \<notin> set (map fst (csr_row row col vals base i)))
            [0..<nat m]))"
    by (simp add: sc_def scan_count_def)
  have once: "length (filter (\<lambda>e. fst e = int i)
                 (with_diagonal n i (csr_row row col vals base i))) = 1"
    if "i < nat m" and "int i < n" for i
    using with_diagonal_once [OF that(2)] assms(6) that(1) by blast
  show ?thesis
  proof (cases "sc \<le> 0")
    case True
    have res: "A' = A \<and> h' = h0"
      using call
      by (simp add: aoclsparse_csr_fill_diag_def v p dr cr Let_def True)
    have "sc = 0" using True by (simp add: sc_def scan_count_def)
    then have none: "\<not> scan_missing row col base n i" if "i < nat m" for i
      using that by (auto simp: sc_def scan_count_def filter_empty_conv)
    have same: "with_diagonal n i (csr_row row col vals base i) = csr_row row col vals base i"
      if "i < nat m" for i
      using none [OF that] miss [OF that] by (auto simp: with_diagonal_def)
    show ?thesis
      apply (rule exI [of _ row], rule exI [of _ col], rule exI [of _ vals])
      using res live p assms(5) assms(4) cnt \<open>sc = 0\<close> same once
      apply simp
      done
  next
    case False
    have nsc: "(sc \<le> 0) = False" using False by simp
    have nn: "0 \<le> nnz"
      using row_offsets_mono [OF mono, of 0 "nat m"] assms(4,5) by simp
    obtain icrow h1 where n1: "new_array (m + 1) h0 = Some (icrow, h1)"
      using call
      by (cases "new_array (m + 1) h0")
         (auto simp: aoclsparse_csr_fill_diag_def v p dr cr Let_def nsc)
    obtain icol h2 where n2: "new_array (nnz + sc) h1 = Some (icol, h2)"
      using call
      by (cases "new_array (nnz + sc) h1")
         (auto simp: aoclsparse_csr_fill_diag_def v p dr cr Let_def nsc n1)
    obtain aval h3 where n3: "operator_new (nnz + sc) h2 = Some (aval, h3)"
      using call
      by (cases "operator_new (nnz + sc) h2")
         (auto simp: aoclsparse_csr_fill_diag_def v p dr cr Let_def nsc n1 n2)
    have md: "\<forall>i<nat m. mdl ! i = (if scan_missing row col base n i
                              then scan_pos row col base i + scan_count row col base n i
                              else - 1)"
      by (simp add: mdl_def)
    have e: "row ! nat m - base + scan_count row col base n (nat m) = nnz + sc"
      using assms(5) by (simp add: sc_def)
    have e2: "row ! nat m - base + sc = nnz + sc"
      using assms(5) by simp
    note na = fill_diag_new_arrays [OF n1 n2 n3 int_array_live [OF live(1)]
                int_array_live [OF live(2)] val_array_live [OF live(3)]]
    define I0 where "I0 = map (fresh_ints h0) [0..<nat (m + 1)]"
    define C0 where "C0 = map (fresh_ints h0) [0..<nat (nnz + sc)]"
    define V0 where "V0 = map (fresh_vals h0) [0..<nat (nnz + sc)]"
    have l0: "length I0 = nat (m + 1)" "length C0 = nat (nnz + sc)" "length V0 = nat (nnz + sc)"
      by (simp_all add: I0_def C0_def V0_def)
    have init: "deref_int h3 (Some icrow) = I0" "deref_int h3 (Some icol) = C0"
               "deref_val h3 (Some aval) = V0"
      using na(5,6,7) by (simp_all add: I0_def C0_def V0_def)
    obtain icrow' icol' aval' where fr:
      "fold (fill_rows_step row col vals base mdl) [0..<nat m] (0, 0, I0, C0, V0)
       = (sc, nnz + sc, icrow', icol', (aval' :: 'a list))"
      "length icrow' = nat (m + 1)"
      "\<forall>i<nat m. icrow' ! i = row ! i - base + scan_count row col base n i"
      "length icol' = nat (nnz + sc)" "length aval' = nat (nnz + sc)"
      "take (nat (nnz + sc)) (zip icol' aval')
        = concat (map (\<lambda>i. with_diagonal n i (csr_row row col vals base i)) [0..<nat m])"
      using fill_rows_fold [OF assms(4) assms(6) md, of C0 V0 I0] m0 l0
      unfolding sc_def [symmetric] e2 by auto
    define row' where "row' = icrow'[nat m := nnz + sc]"
    have res: "Inr (aoclsparse_status_success,
                 A\<lparr>csr_col_ptr := Some icol, csr_row_ptr := Some icrow, csr_val := Some aval\<rparr>,
                 operator_delete (Some av) (delete_array (Some ar) (delete_array (Some ac)
                   (set_val_array aval aval' (set_int_array icol icol'
                      (set_int_array icrow row' h3))))))
               = (Inr (aoclsparse_status_success, A', h')
                    :: cpp_exception + aoclsparse_status \<times> aoclsparse_csr \<times> 'a heap)"
      using call
      by (simp only: aoclsparse_csr_fill_diag_def v sum.case p option.distinct simp_thms
            if_False dr cr Let_def prod.case nsc n1 n2 n3 option.case init fr row'_def)
    then have A': "A' = A\<lparr>csr_col_ptr := Some icol, csr_row_ptr := Some icrow,
                            csr_val := Some aval\<rparr>"
      and h': "h' = operator_delete (Some av) (delete_array (Some ar) (delete_array (Some ac)
                   (set_val_array aval aval' (set_int_array icol icol'
                      (set_int_array icrow row' h3)))))"
      by simp_all
    have offs: "\<forall>i\<le>nat m. row' ! i = row ! i - base + scan_count row col base n i"
      using fr(2,3) e m0 by (auto simp: row'_def nth_list_update le_less)
    have rb: "csr_row row' icol' aval' 0 i = with_diagonal n i (csr_row row col vals base i)"
      if "i < nat m" for i
      using merged_rows_readback [OF assms(4) assms(6) _ _ _ offs that, of icol' aval']
            fr(4,5,6) unfolding e by simp
    have last: "row' ! nat m - row' ! 0 = nnz + sc"
      using offs e assms(4) by (simp add: scan_count_def)
    show ?thesis
      apply (rule exI [of _ row'], rule exI [of _ icol'], rule exI [of _ aval'])
      using na rb once last cnt
      apply (simp add: A' h' p)
      done
  qed
qed

text \<open>
  C2. A successful call of \<open>aoclsparse_csr_fill_diag\<close> on a zero-based matrix in which the
  columns of every row increase strictly leaves a matrix in which every row \<open>i\<close> is the row
  of the input with its diagonal entry: the entries of the input row, in their order, and,
  when \<open>i < n\<close> and the row had no entry at column \<open>i\<close>, a zero at column \<open>i\<close> in its place
  among them. So every row \<open>i < n\<close> has exactly one entry at column \<open>i\<close>, and the last row
  offset exceeds the first by \<open>nnz\<close> plus the number of rows \<open>i < n\<close> that had no diagonal
  entry. The row offsets of the input start at zero, do not decrease, and end at \<open>nnz\<close>.
  The new arrays hold whatever the allocation left in them before they are written.
\<close>

theorem fill_diag_postcondition:
  fixes h :: "('a::zero) heap"
  assumes "int_array h (csr_row_ptr A) = Some row"
      and "int_array h (csr_col_ptr A) = Some col"
      and "val_array h (csr_val A) = Some vals"
      and "row ! 0 = 0" and "row ! nat m = nnz"
      and "\<forall>i < nat m. row ! i \<le> row ! (i + 1)
             \<and> sorted_wrt (<) (map fst (csr_row row col vals 0 i))"
      and "aoclsparse_csr_fill_diag m n nnz aoclsparse_index_base_zero A h
           = Inr (aoclsparse_status_success, A', h')"
  shows "\<exists>row' col' vals'.
      int_array h' (csr_row_ptr A') = Some row'
      \<and> int_array h' (csr_col_ptr A') = Some col'
      \<and> val_array h' (csr_val A') = Some vals'
      \<and> (\<forall>i < nat m.
            csr_row row' col' vals' 0 i = with_diagonal n i (csr_row row col vals 0 i)
            \<and> (int i < n \<longrightarrow>
                 length (filter (\<lambda>e. fst e = int i) (csr_row row' col' vals' 0 i)) = 1))
      \<and> row' ! nat m - row' ! 0
        = nnz + int (length (filter
            (\<lambda>i. int i < n \<and> int i \<notin> set (map fst (csr_row row col vals 0 i)))
            [0..<nat m]))"
  using fill_diag_rows [OF assms(1,2,3), of 0 m nnz n A' h'] assms(4,5,6,7)
  by (simp add: aoclsparse_index_base_zero_def)

theorem fill_diag_postcondition_witness:
  "aoclsparse_csr_fill_diag 2 2 2 aoclsparse_index_base_zero
      \<lparr>csr_row_ptr = Some 0, csr_col_ptr = Some 1, csr_val = Some 0\<rparr>
      \<lparr>int_arrays = [Some [0, 1, 2], Some [1, 0]], val_arrays = [Some [5, 6 :: int]],
       avail = 4, fresh_ints = (\<lambda>j. 99), fresh_vals = (\<lambda>j. 77)\<rparr>
   = Inr (aoclsparse_status_success,
          \<lparr>csr_row_ptr = Some 2, csr_col_ptr = Some 3, csr_val = Some 1\<rparr>,
          \<lparr>int_arrays = [None, None, Some [0, 2, 4], Some [0, 1, 0, 1]],
           val_arrays = [None, Some [0, 5, 6, 0]], avail = 0,
           fresh_ints = (\<lambda>j. 99), fresh_vals = (\<lambda>j. 77)\<rparr>)
   \<and> csr_row [0, 1, 2] [1, 0] [5, 6 :: int] 0 0 = [(1, 5)]
   \<and> csr_row [0, 1, 2] [1, 0] [5, 6 :: int] 0 1 = [(0, 6)]
   \<and> csr_row [0, 2, 4] [0, 1, 0, 1] [0, 5, 6, 0 :: int] 0 0 = [(0, 0), (1, 5)]
   \<and> csr_row [0, 2, 4] [0, 1, 0, 1] [0, 5, 6, 0 :: int] 0 1 = [(0, 6), (1, 0)]
   \<and> [0, 2, 4] ! nat 2 - [0, 2, 4] ! 0 = (2 :: int) + 2"
proof -
  let ?A = "\<lparr>csr_row_ptr = Some 0, csr_col_ptr = Some 1, csr_val = Some 0\<rparr>"
  let ?h = "\<lparr>int_arrays = [Some [0, 1, 2], Some [1, 0]], val_arrays = [Some [5, 6 :: int]],
             avail = 4, fresh_ints = (\<lambda>j. 99), fresh_vals = (\<lambda>j. 77)\<rparr>"
  let ?A' = "\<lparr>csr_row_ptr = Some 2, csr_col_ptr = Some 3, csr_val = Some 1\<rparr>"
  let ?h' = "\<lparr>int_arrays = [None, None, Some [0, 2, 4], Some [0, 1, 0, 1]],
              val_arrays = [None, Some [0, 5, 6, 0 :: int]], avail = 0,
              fresh_ints = (\<lambda>j. 99), fresh_vals = (\<lambda>j. 77)\<rparr>"
  have r: "csr_row [0, 1, 2] [1, 0] [5, 6 :: int] 0 0 = [(1, 5)]"
          "csr_row [0, 1, 2] [1, 0] [5, 6 :: int] 0 (Suc 0) = [(0, 6)]"
    by code_simp+
  have w: "with_diagonal 2 0 [(1, 5 :: int)] = [(0, 0), (1, 5)]"
          "with_diagonal 2 (Suc 0) [(0, 6 :: int)] = [(0, 6), (1, 0)]"
    by (simp_all add: with_diagonal_def)
  have c1: "fold (check_row [0, 1, 2] [1, 0] 0 2) [0..<2] (0, replicate 2 (- 1)) = (2, [0, 3])"
    by code_simp
  have c2: "fold (fill_rows_step [0, 1, 2] [1, 0] [5, 6 :: int] 0 [0, 3]) [0..<2]
              (0, 0, [99, 99, 99], [99, 99, 99, 99], [77, 77, 77, 77])
            = (2, 4, [0, 2, 99], [0, 1, 0, 1], [0, 5, 6, 0])"
    by code_simp
  have u: "[0..<3] = [0, 1, 2]" "[0..<4] = [0, 1, 2, 3]" by (simp_all add: upt_rec)
  have call: "aoclsparse_csr_fill_diag 2 2 2 aoclsparse_index_base_zero ?A ?h
              = Inr (aoclsparse_status_success, ?A', ?h')"
    by (simp add: aoclsparse_csr_fill_diag_def vector_alloc_def deref_int_def deref_val_def
          int_array_def val_array_def c1 c2 new_array_def operator_new_def set_int_array_def
          set_val_array_def delete_array_def operator_delete_def Let_def u
          aoclsparse_index_base_zero_def)
  have rows: "\<forall>i < nat 2. [0, 1, 2] ! i \<le> [0, 1, 2 :: int] ! (i + 1)
             \<and> sorted_wrt (<) (map fst (csr_row [0, 1, 2] [1, 0] [5, 6 :: int] 0 i))"
    by (auto simp: less_Suc_eq numeral_2_eq_2 r)
  obtain row' col' vals' where o:
    "int_array ?h' (csr_row_ptr ?A') = Some row'"
    "int_array ?h' (csr_col_ptr ?A') = Some col'"
    "val_array ?h' (csr_val ?A') = Some vals'"
    "\<forall>i < nat 2.
        csr_row row' col' vals' 0 i
        = with_diagonal 2 i (csr_row [0, 1, 2] [1, 0] [5, 6 :: int] 0 i)"
    "row' ! nat 2 - row' ! 0
        = 2 + int (length (filter
            (\<lambda>i. int i < 2 \<and> int i \<notin> set (map fst (csr_row [0, 1, 2] [1, 0] [5, 6 :: int] 0 i)))
            [0..<nat 2]))"
    using fill_diag_postcondition [of ?h ?A "[0, 1, 2]" "[1, 0]" "[5, 6]" 2 2 2 ?A' ?h',
            OF _ _ _ _ _ rows call]
    by (auto simp: int_array_def val_array_def)
  have e: "row' = [0, 2, 4]" "col' = [0, 1, 0, 1]" "vals' = [0, 5, 6, 0]"
    using o(1,2,3) by (simp_all add: int_array_def val_array_def)
  have f: "[0..<nat 2] = [0, Suc 0]" by (simp add: numeral_2_eq_2)
  show ?thesis
    using o(4) [rule_format, of 0] o(4) [rule_format, of "Suc 0"] o(5) call
    unfolding e f by (simp add: r w)
qed

section \<open>aoclsparse\_sort\_csr\<close>

























section \<open>aoclsparse\_csr\_optimize\<close>












end
